theory Spec2Isabelle
  imports Complex_Main "HOL-Library.Log_Nat" "HOL-Library.Sublist"
begin

section \<open>Data parameters of \<open>config.py\<close>\<close>

text \<open>
  A Python \<open>dict\<close> with string keys is an association list in source order; \<open>map_of\<close>
  is the subscript \<open>d[k]\<close>, with \<open>None\<close> where Python raises \<open>KeyError\<close>.
  Python integers are unbounded: \<open>int\<close>.
\<close>

type_synonym 'v dict = "(string \<times> 'v) list"

definition TIME_ALLOCATION :: "int dict dict" where
  "TIME_ALLOCATION =
    [(''food_preparation'', [(''female'', 98), (''male'', 12)]),
     (''serving_food'', [(''female'', 28), (''male'', 3)]),
     (''cleanup_meals'', [(''female'', 34), (''male'', 2)]),
     (''cleaning_dwelling'', [(''female'', 66), (''male'', 8)]),
     (''care_textiles'', [(''female'', 30), (''male'', 3)]),
     (''gardening'', [(''female'', 8), (''male'', 4)]),
     (''shopping'', [(''female'', 30), (''male'', 12)]),
     (''childcare'', [(''female'', 62), (''male'', 18)]),
     (''teaching_children'', [(''female'', 15), (''male'', 4)]),
     (''adult_care'', [(''female'', 35), (''male'', 14)]),
     (''other_domestic'', [(''female'', 35), (''male'', 14)])]"

definition TOTAL_UNPAID_MINUTES :: "int dict" where
  "TOTAL_UNPAID_MINUTES = [(''female'', 441), (''male'', 94)]"

text \<open>
  The sum over all activities of the entry of one gender, as
  \<open>sum(v[g] for v in TIME_ALLOCATION.values())\<close> computes it: \<open>None\<close> when an activity
  has no entry for the gender.
\<close>

fun itemized_minutes :: "string \<Rightarrow> int dict dict \<Rightarrow> int option" where
  "itemized_minutes g [] = Some 0"
| "itemized_minutes g ((activity, d) # rest) =
     (case map_of d g of
        None \<Rightarrow> None
      | Some m \<Rightarrow> map_option (\<lambda>s. m + s) (itemized_minutes g rest))"

section \<open>Output directories\<close>

text \<open>
  A path is the list of its components below the filesystem root; the file system maps a
  path to the kind of node found there. \<open>PROJECT_ROOT\<close> is
  \<open>Path(__file__).parent.parent\<close>, a value of the installation: it is a parameter here.
\<close>

type_synonym path = "string list"

datatype node = Dir | File

type_synonym filesystem = "path \<Rightarrow> node option"

datatype os_error =
    FileExistsError path
  | FileNotFoundError path
  | NotADirectoryError path

definition DATA_DIR :: "path \<Rightarrow> path" where
  "DATA_DIR PROJECT_ROOT = PROJECT_ROOT @ [''data'']"

definition OUTPUTS_DIR :: "path \<Rightarrow> path" where
  "OUTPUTS_DIR PROJECT_ROOT = PROJECT_ROOT @ [''outputs'']"

definition FIGURES_DIR :: "path \<Rightarrow> path" where
  "FIGURES_DIR PROJECT_ROOT = OUTPUTS_DIR PROJECT_ROOT @ [''figures'']"

definition TABLES_DIR :: "path \<Rightarrow> path" where
  "TABLES_DIR PROJECT_ROOT = OUTPUTS_DIR PROJECT_ROOT @ [''tables'']"

definition LOGS_DIR :: "path \<Rightarrow> path" where
  "LOGS_DIR PROJECT_ROOT = OUTPUTS_DIR PROJECT_ROOT @ [''logs'']"

text \<open>
  \<open>os.mkdir(p)\<close>: the path must be free, no file may stand on the way to it, and its
  parent must be an existing directory.
\<close>

definition os_mkdir :: "path \<Rightarrow> filesystem \<Rightarrow> os_error + filesystem" where
  "os_mkdir p fs =
     (if fs p \<noteq> None then Inl (FileExistsError p)
      else if list_ex (\<lambda>q. fs q = Some File) (prefixes (butlast p))
      then Inl (NotADirectoryError p)
      else case fs (butlast p) of
             None \<Rightarrow> Inl (FileNotFoundError p)
           | Some File \<Rightarrow> Inl (NotADirectoryError p)
           | Some Dir \<Rightarrow> Inr (fs(p \<mapsto> Dir)))"

definition is_dir :: "filesystem \<Rightarrow> path \<Rightarrow> bool" where
  "is_dir fs p = (fs p = Some Dir)"

text \<open>
  \<open>Path.mkdir(parents=True, exist_ok=True)\<close> of pathlib: try \<open>os.mkdir\<close>; on
  \<open>FileNotFoundError\<close> create the parent the same way and then the directory itself
  (now with \<open>parents=False\<close>); on any other \<open>OSError\<close> succeed exactly when the path
  is a directory already.
\<close>

function mkdir :: "path \<Rightarrow> filesystem \<Rightarrow> os_error + filesystem" where
  "mkdir p fs =
     (case os_mkdir p fs of
        Inr fs' \<Rightarrow> Inr fs'
      | Inl (FileNotFoundError q) \<Rightarrow>
          (if p = [] then Inl (FileNotFoundError q)
           else case mkdir (butlast p) fs of
                  Inl e \<Rightarrow> Inl e
                | Inr fs1 \<Rightarrow>
                    (case os_mkdir p fs1 of
                       Inr fs2 \<Rightarrow> Inr fs2
                     | Inl (FileNotFoundError q') \<Rightarrow> Inl (FileNotFoundError q')
                     | Inl e \<Rightarrow> if is_dir fs1 p then Inr fs1 else Inl e))
      | Inl e \<Rightarrow> if is_dir fs p then Inr fs else Inl e)"
  by pat_completeness auto
termination
  by (relation "measure (\<lambda>(p, fs). length p)") auto

declare mkdir.simps [simp del]

definition directories :: "path \<Rightarrow> path list" where
  "directories PROJECT_ROOT =
     [DATA_DIR PROJECT_ROOT @ [''processed''],
      OUTPUTS_DIR PROJECT_ROOT,
      FIGURES_DIR PROJECT_ROOT,
      TABLES_DIR PROJECT_ROOT,
      LOGS_DIR PROJECT_ROOT]"

text \<open>The \<open>for\<close> loop: the first error ends it, as the exception does.\<close>

fun mkdir_each :: "path list \<Rightarrow> filesystem \<Rightarrow> os_error + filesystem" where
  "mkdir_each [] fs = Inr fs"
| "mkdir_each (d # ds) fs =
     (case mkdir d fs of Inl e \<Rightarrow> Inl e | Inr fs' \<Rightarrow> mkdir_each ds fs')"

definition create_output_directories :: "path \<Rightarrow> filesystem \<Rightarrow> os_error + filesystem" where
  "create_output_directories PROJECT_ROOT fs = mkdir_each (directories PROJECT_ROOT) fs"

text \<open>
  What one successful \<open>mkdir\<close> may do to the file system: every node that was there
  stays as it was, and a node that is new is a directory on the way to \<open>p\<close>.
\<close>

definition mkdir_post :: "path \<Rightarrow> filesystem \<Rightarrow> filesystem \<Rightarrow> bool" where
  "mkdir_post p fs fs' \<longleftrightarrow>
     (\<forall>q. fs q \<noteq> None \<longrightarrow> fs' q = fs q) \<and>
     (\<forall>q. fs' q \<noteq> fs q \<longrightarrow> fs' q = Some Dir \<and> prefix q p)"

definition changed_within :: "path list \<Rightarrow> filesystem \<Rightarrow> filesystem \<Rightarrow> bool" where
  "changed_within ds fs fs' \<longleftrightarrow>
     (\<forall>q. fs q \<noteq> None \<longrightarrow> fs' q = fs q) \<and>
     (\<forall>q. fs' q \<noteq> fs q \<longrightarrow> fs' q = Some Dir \<and> (\<exists>d \<in> set ds. prefix q d))"

text \<open>The directories found strictly below the project root.\<close>

definition directories_below :: "path \<Rightarrow> filesystem \<Rightarrow> path set" where
  "directories_below PROJECT_ROOT fs = {p. strict_prefix PROJECT_ROOT p \<and> is_dir fs p}"

text \<open>The directories that are there afterwards and were not there before.\<close>

definition created_directories :: "filesystem \<Rightarrow> filesystem \<Rightarrow> path set" where
  "created_directories fs fs' = {p. fs p = None \<and> is_dir fs' p}"

text \<open>
  A checkout at \<open>/repo\<close> that holds the module \<open>/repo/src/config.py\<close> and nothing
  else, and the same after provisioning.
\<close>

definition fresh_project :: filesystem where
  "fresh_project =
     [[] \<mapsto> Dir, [''repo''] \<mapsto> Dir, [''repo'', ''src''] \<mapsto> Dir,
      [''repo'', ''src'', ''config.py''] \<mapsto> File]"

definition provisioned_project :: filesystem where
  "provisioned_project =
     fresh_project
       ([''repo'', ''data''] \<mapsto> Dir,
        [''repo'', ''data'', ''processed''] \<mapsto> Dir,
        [''repo'', ''outputs''] \<mapsto> Dir,
        [''repo'', ''outputs'', ''figures''] \<mapsto> Dir,
        [''repo'', ''outputs'', ''tables''] \<mapsto> Dir,
        [''repo'', ''outputs'', ''logs''] \<mapsto> Dir)"

section \<open>Python numbers\<close>

subsection \<open>Floats: IEEE 754 binary64, rounding to nearest, ties to even\<close>

text \<open>
  A Python \<open>float\<close> is a binary64 value. A finite one is given by the rational number
  it stands for (so \<open>-0.0\<close> and \<open>0.0\<close> are one value here: they are equal under
  every comparison, and only their printed sign differs). Every float operation yields
  the exact result rounded to the nearest representable value, ties going to the even
  significand; \<open>round64\<close> is that rounding, with 53 significant bits, the least
  exponent \<open>-1074\<close> of the subnormal range, and infinity from \<open>2 ^ 1024\<close> on.
\<close>

datatype double = Finite rat | PosInf | NegInf | NaN

text \<open>For \<open>q > 0\<close>, the exponent \<open>k\<close> with \<open>2 ^ k \<le> q < 2 ^ (k + 1)\<close>.\<close>

definition floor_log2 :: "rat \<Rightarrow> int" where
  "floor_log2 q =
     (let (a, b) = quotient_of q; k = bitlen a - bitlen b
      in if 2 powi k \<le> q then k else k - 1)"

definition round_half_even :: "rat \<Rightarrow> int" where
  "round_half_even q =
     (let f = \<lfloor>q\<rfloor>; r = q - of_int f
      in if r < 1 / 2 \<or> (r = 1 / 2 \<and> even f) then f else f + 1)"

text \<open>The exponent of the unit in the last place of the binade of \<open>q\<close>.\<close>

definition ulp_exponent :: "rat \<Rightarrow> int" where
  "ulp_exponent q = max (floor_log2 \<bar>q\<bar>) (- 1022) - 52"

definition round_nearest :: "rat \<Rightarrow> rat" where
  "round_nearest q =
     (if q = 0 then 0
      else let e = ulp_exponent q in of_int (round_half_even (q / 2 powi e)) * 2 powi e)"

definition round64 :: "rat \<Rightarrow> double" where
  "round64 q =
     (let r = round_nearest q
      in if 2 ^ 1024 \<le> r then PosInf else if r \<le> - (2 ^ 1024) then NegInf else Finite r)"

text \<open>A decimal literal such as \<open>0.072\<close> denotes the float nearest to it.\<close>

definition literal :: "rat \<Rightarrow> double" where
  "literal q = round64 q"

text \<open>
  An \<open>int\<close> operand of a float operation is converted first. The \<open>int\<close> literals
  and constants of this module are far below \<open>2 ^ 53\<close>, where the conversion is exact.
\<close>

definition exact :: "int \<Rightarrow> double" where
  "exact i = Finite (of_int i)"

fun fneg :: "double \<Rightarrow> double" where
  "fneg (Finite a) = Finite (- a)"
| "fneg PosInf = NegInf"
| "fneg NegInf = PosInf"
| "fneg NaN = NaN"

fun fadd :: "double \<Rightarrow> double \<Rightarrow> double" where
  "fadd NaN y = NaN"
| "fadd x NaN = NaN"
| "fadd (Finite a) (Finite b) = round64 (a + b)"
| "fadd (Finite a) y = y"
| "fadd x (Finite b) = x"
| "fadd x y = (if x = y then x else NaN)"

fun fmul :: "double \<Rightarrow> double \<Rightarrow> double" where
  "fmul NaN y = NaN"
| "fmul x NaN = NaN"
| "fmul (Finite a) (Finite b) = round64 (a * b)"
| "fmul (Finite a) y = (if a = 0 then NaN else if 0 < a then y else fneg y)"
| "fmul x (Finite b) = (if b = 0 then NaN else if 0 < b then x else fneg x)"
| "fmul x y = (if x = y then PosInf else NegInf)"

text \<open>
  The quotient of two floats where the divisor is not zero; Python's \<open>/\<close> raises
  \<open>ZeroDivisionError\<close> before it divides by zero (see \<open>py_truediv\<close>).
\<close>

fun fquot :: "double \<Rightarrow> double \<Rightarrow> double" where
  "fquot NaN y = NaN"
| "fquot x NaN = NaN"
| "fquot (Finite a) (Finite b) = round64 (a / b)"
| "fquot (Finite a) y = Finite 0"
| "fquot x (Finite b) = (if 0 < b then x else fneg x)"
| "fquot x y = NaN"

text \<open>The comparisons \<open><=\<close> and \<open><\<close>: false whenever an operand is NaN.\<close>

fun fle :: "double \<Rightarrow> double \<Rightarrow> bool" where
  "fle NaN y = False"
| "fle x NaN = False"
| "fle NegInf y = True"
| "fle x PosInf = True"
| "fle (Finite a) (Finite b) = (a \<le> b)"
| "fle x y = False"

fun flt :: "double \<Rightarrow> double \<Rightarrow> bool" where
  "flt NaN y = False"
| "flt x NaN = False"
| "flt (Finite a) (Finite b) = (a < b)"
| "flt PosInf y = False"
| "flt x NegInf = False"
| "flt x y = True"

subsection \<open>Ints and floats together\<close>

datatype number = PyInt int | PyFloat double

text \<open>
  The message of an assertion is an f-string: literal text and the values shown in it.
\<close>

datatype piece = Lit string | Shown number

datatype error =
    AssertionError "piece list"
  | OverflowError
  | ZeroDivisionError
  | ValueError

definition and_then :: "error + 'a \<Rightarrow> ('a \<Rightarrow> error + 'b) \<Rightarrow> error + 'b" where
  "and_then r f = (case r of Inl e \<Rightarrow> Inl e | Inr v \<Rightarrow> f v)"

text \<open>
  Python compares an \<open>int\<close> with a \<open>float\<close> by their exact values; \<open>magnitude\<close>
  is the value of a number on the extended line, without any rounding.
\<close>

fun magnitude :: "number \<Rightarrow> double" where
  "magnitude (PyInt i) = Finite (of_int i)"
| "magnitude (PyFloat x) = x"

definition num_le :: "number \<Rightarrow> number \<Rightarrow> bool" where
  "num_le x y = fle (magnitude x) (magnitude y)"

definition num_lt :: "number \<Rightarrow> number \<Rightarrow> bool" where
  "num_lt x y = flt (magnitude x) (magnitude y)"

text \<open>
  The conversion of an \<open>int\<close> to \<open>float\<close> rounds to nearest, ties to even, and raises
  \<open>OverflowError\<close> when the int is too large.
\<close>

definition float_of_int :: "int \<Rightarrow> error + double" where
  "float_of_int i =
     (case round64 (of_int i) of Finite r \<Rightarrow> Inr (Finite r) | _ \<Rightarrow> Inl OverflowError)"

fun as_float :: "number \<Rightarrow> error + double" where
  "as_float (PyInt i) = float_of_int i"
| "as_float (PyFloat x) = Inr x"

fun py_mul :: "number \<Rightarrow> number \<Rightarrow> error + number" where
  "py_mul (PyInt a) (PyInt b) = Inr (PyInt (a * b))"
| "py_mul x y =
     and_then (as_float x) (\<lambda>u. and_then (as_float y) (\<lambda>v. Inr (PyFloat (fmul u v))))"

text \<open>
  True division. Of two ints it is the exact quotient rounded once, with
  \<open>OverflowError\<close> when that is too large for a float.
\<close>

fun py_truediv :: "number \<Rightarrow> number \<Rightarrow> error + number" where
  "py_truediv (PyInt a) (PyInt b) =
     (if b = 0 then Inl ZeroDivisionError
      else case round64 (of_int a / of_int b) of
             Finite r \<Rightarrow> Inr (PyFloat (Finite r))
           | _ \<Rightarrow> Inl OverflowError)"
| "py_truediv x y =
     and_then (as_float x) (\<lambda>u. and_then (as_float y) (\<lambda>v.
       if v = Finite 0 then Inl ZeroDivisionError else Inr (PyFloat (fquot u v))))"

text \<open>\<open>int(x)\<close> of a float truncates towards zero.\<close>

fun py_int :: "double \<Rightarrow> error + int" where
  "py_int (Finite a) = Inr (if 0 \<le> a then \<lfloor>a\<rfloor> else \<lceil>a\<rceil>)"
| "py_int NaN = Inl ValueError"
| "py_int x = Inl OverflowError"

section \<open>Parameters\<close>

definition EMOTIONAL_LABOR_PREMIUM :: double where
  "EMOTIONAL_LABOR_PREMIUM = literal (20 / 100)"

definition DAYS_PER_YEAR :: int where
  "DAYS_PER_YEAR = 365"

definition MINUTES_PER_HOUR :: int where
  "MINUTES_PER_HOUR = 60"

definition RISK_FREE_RATE :: double where
  "RISK_FREE_RATE = literal (72 / 1000)"

definition INFLATION_PREMIUM :: double where
  "INFLATION_PREMIUM = literal (24 / 1000)"

definition HOUSEHOLD_RISK_PREMIUM :: double where
  "HOUSEHOLD_RISK_PREMIUM = literal (10 / 1000)"

definition DISCOUNT_RATE :: double where
  "DISCOUNT_RATE = fadd (fadd RISK_FREE_RATE INFLATION_PREMIUM) HOUSEHOLD_RISK_PREMIUM"

definition WAGE_GROWTH_ASI :: double where
  "WAGE_GROWTH_ASI = literal (62 / 1000)"

definition WAGE_GROWTH_EPFO :: double where
  "WAGE_GROWTH_EPFO = literal (58 / 1000)"

definition CONSERVATIVE_ADJUSTMENT :: double where
  "CONSERVATIVE_ADJUSTMENT = fneg (literal (2 / 1000))"

definition GROWTH_RATE :: double where
  "GROWTH_RATE =
     fadd (fquot (fadd WAGE_GROWTH_ASI WAGE_GROWTH_EPFO) (exact 2)) CONSERVATIVE_ADJUSTMENT"

definition TIME_HORIZON_YEARS :: int where
  "TIME_HORIZON_YEARS = 55"

definition FEMALE_ANNUAL_SALARY :: int where
  "FEMALE_ANNUAL_SALARY = 1345000"

definition MALE_SALARY_PREMIUM :: double where
  "MALE_SALARY_PREMIUM = literal (35 / 100)"

text \<open>The float that \<open>int(...)\<close> is applied to in \<open>MALE_ANNUAL_SALARY\<close>.\<close>

definition male_salary_product :: double where
  "male_salary_product = fmul (exact FEMALE_ANNUAL_SALARY) (fadd (exact 1) MALE_SALARY_PREMIUM)"

definition MALE_ANNUAL_SALARY :: "error + int" where
  "MALE_ANNUAL_SALARY = py_int male_salary_product"

definition LIFECYCLE_COST_LUMP :: int where
  "LIFECYCLE_COST_LUMP = 5000000"

definition MC_ITERATIONS :: int where
  "MC_ITERATIONS = 10000"

text \<open>
  The dict literal of \<open>MC_PARAMS\<close>, as a function of the three names it reads. Its
  items are evaluated in source order; the products of the last entry convert the int
  operand to float, which is where the literal could raise.
\<close>

definition mc_params :: "number \<Rightarrow> number \<Rightarrow> number \<Rightarrow> error + number dict dict" where
  "mc_params discount_rate growth_rate lifecycle_cost_lump =
     and_then (py_mul (PyFloat (literal (15 / 100))) lifecycle_cost_lump) (\<lambda>std.
     and_then (py_mul (PyFloat (literal (5 / 10))) lifecycle_cost_lump) (\<lambda>lo.
     and_then (py_mul (PyFloat (literal (15 / 10))) lifecycle_cost_lump) (\<lambda>hi.
     Inr
      [(''discount_rate'',
          [(''mean'', discount_rate),
           (''std'', PyFloat (literal (15 / 1000))),
           (''min'', PyFloat (literal (5 / 100))),
           (''max'', PyFloat (literal (15 / 100)))]),
       (''growth_rate'',
          [(''mean'', growth_rate),
           (''std'', PyFloat (literal (12 / 1000))),
           (''min'', PyFloat (literal (2 / 100))),
           (''max'', PyFloat (literal (10 / 100)))]),
       (''hours_multiplier'',
          [(''mean'', PyFloat (literal 1)),
           (''std'', PyFloat (literal (10 / 100))),
           (''min'', PyFloat (literal (70 / 100))),
           (''max'', PyFloat (literal (130 / 100)))]),
       (''wage_multiplier'',
          [(''mean'', PyFloat (literal 1)),
           (''std'', PyFloat (literal (10 / 100))),
           (''min'', PyFloat (literal (80 / 100))),
           (''max'', PyFloat (literal (130 / 100)))]),
       (''lifecycle_cost'',
          [(''mean'', lifecycle_cost_lump),
           (''std'', std),
           (''min'', lo),
           (''max'', hi)])])))"

definition MC_PARAMS :: "error + number dict dict" where
  "MC_PARAMS = mc_params (PyFloat DISCOUNT_RATE) (PyFloat GROWTH_RATE) (PyInt LIFECYCLE_COST_LUMP)"

text \<open>\<open>d[k1][k2]\<close>, with \<open>None\<close> for \<open>KeyError\<close>.\<close>

definition entry :: "'v dict dict \<Rightarrow> string \<Rightarrow> string \<Rightarrow> 'v option" where
  "entry d k1 k2 = (case map_of d k1 of None \<Rightarrow> None | Some row \<Rightarrow> map_of row k2)"

text \<open>The invariant of one distribution: \<open>min <= mean <= max\<close>.\<close>

definition bounds_enclose_mean :: "number dict \<Rightarrow> bool" where
  "bounds_enclose_mean row =
     (case (map_of row ''min'', map_of row ''mean'', map_of row ''max'') of
        (Some lo, Some mean, Some hi) \<Rightarrow> num_le lo mean \<and> num_le mean hi
      | _ \<Rightarrow> False)"

section \<open>Helper functions\<close>

definition get_annual_hours :: "number \<Rightarrow> error + number" where
  "get_annual_hours minutes_per_day =
     and_then (py_mul minutes_per_day (PyInt DAYS_PER_YEAR))
       (\<lambda>product. py_truediv product (PyInt MINUTES_PER_HOUR))"

text \<open>\<open>m * 365 / 60\<close> in binary64 arithmetic, the value the specification names.\<close>

definition times_365_over_60 :: "double \<Rightarrow> double" where
  "times_365_over_60 m = fquot (fmul m (Finite 365)) (Finite 60)"

text \<open>
  The first step of \<open>get_annual_hours\<close> is the product
  \<open>minutes_per_day * DAYS_PER_YEAR\<close>: exact for an int, rounded for a float.
  \<open>products_in_order\<close> says that this step has kept two inputs in their order.
\<close>

fun product_365 :: "number \<Rightarrow> number" where
  "product_365 (PyInt i) = PyInt (i * 365)"
| "product_365 (PyFloat x) = PyFloat (fmul x (Finite 365))"

definition products_in_order :: "number \<Rightarrow> number \<Rightarrow> bool" where
  "products_in_order m1 m2 =
     (case (py_mul m1 (PyInt DAYS_PER_YEAR), py_mul m2 (PyInt DAYS_PER_YEAR)) of
        (Inr p1, Inr p2) \<Rightarrow> num_le p1 p2
      | _ \<Rightarrow> False)"

fun same_kind :: "number \<Rightarrow> number \<Rightarrow> bool" where
  "same_kind (PyInt i) (PyInt j) = True"
| "same_kind (PyFloat x) (PyFloat y) = True"
| "same_kind m1 m2 = False"

definition apply_emotional_labor_adjustment :: "number \<Rightarrow> error + number" where
  "apply_emotional_labor_adjustment hours =
     py_mul hours (PyFloat (fadd (exact 1) EMOTIONAL_LABOR_PREMIUM))"

subsection \<open>Formatting\<close>

text \<open>
  A Python \<open>str\<close> is a sequence of code points; \<open>ascii\<close> embeds an ASCII literal.
  The rupee sign is U+20B9, the check mark U+2713.
\<close>

type_synonym str = "nat list"

definition ascii :: "string \<Rightarrow> str" where
  "ascii s = map of_char s"


definition check_mark :: nat where
  "check_mark = 10003"












section \<open>Validation\<close>

text \<open>
  \<open>validate_parameters\<close> reads five names of the module; they are the fields of
  \<open>settings\<close>, so that a run with another value of one of them can be stated.
\<close>

record settings =
  discount_rate :: number
  growth_rate :: number
  time_horizon_years :: number
  mc_iterations :: number
  emotional_labor_premium :: number

definition module_settings :: settings where
  "module_settings =
     \<lparr>discount_rate = PyFloat DISCOUNT_RATE,
      growth_rate = PyFloat GROWTH_RATE,
      time_horizon_years = PyInt TIME_HORIZON_YEARS,
      mc_iterations = PyInt MC_ITERATIONS,
      emotional_labor_premium = PyFloat EMOTIONAL_LABOR_PREMIUM\<rparr>"

text \<open>\<open>assert condition, message\<close>, with assertions enabled.\<close>

definition assert_that :: "bool \<Rightarrow> piece list \<Rightarrow> error + unit" where
  "assert_that condition message = (if condition then Inr () else Inl (AssertionError message))"

text \<open>The value returned is the line printed on success.\<close>

definition validate_parameters :: "settings \<Rightarrow> error + str" where
  "validate_parameters s =
     and_then (assert_that
        (num_lt (PyInt 0) (discount_rate s) \<and>
         num_lt (discount_rate s) (PyFloat (literal (20 / 100))))
        [Lit ''Discount rate '', Shown (discount_rate s), Lit '' out of range'']) (\<lambda>_.
     and_then (assert_that
        (num_le (PyInt 0) (growth_rate s) \<and>
         num_lt (growth_rate s) (PyFloat (literal (15 / 100))))
        [Lit ''Growth rate '', Shown (growth_rate s), Lit '' out of range'']) (\<lambda>_.
     and_then (assert_that
        (num_lt (PyInt 0) (time_horizon_years s))
        [Lit ''Time horizon must be positive'']) (\<lambda>_.
     and_then (assert_that
        (num_le (PyInt 1000) (mc_iterations s))
        [Lit ''Monte Carlo iterations too low'']) (\<lambda>_.
     and_then (assert_that
        (num_le (PyInt 0) (emotional_labor_premium s) \<and>
         num_le (emotional_labor_premium s) (PyFloat (literal (50 / 100))))
        [Lit ''Emotional labor premium out of range'']) (\<lambda>_.
     Inr (check_mark # ascii '' All parameters validated successfully''))))))"

text \<open>Whether a float lies within a tolerance of a decimal value.\<close>

definition close_to :: "double \<Rightarrow> rat \<Rightarrow> rat \<Rightarrow> bool" where
  "close_to x v tolerance = (case x of Finite a \<Rightarrow> \<bar>a - v\<bar> \<le> tolerance | _ \<Rightarrow> False)"

text \<open>
  For every entry of the table, in order, its name and whether its bounds enclose its mean.
\<close>

definition checked_rows :: "number dict dict \<Rightarrow> (string \<times> bool) list" where
  "checked_rows d = map (\<lambda>(name, row). (name, bounds_enclose_mean row)) d"

text \<open>The table that the module builds, the three products worked out.\<close>

definition module_rows :: "number dict dict" where
  "module_rows =
      [(''discount_rate'',
          [(''mean'', PyFloat DISCOUNT_RATE),
           (''std'', PyFloat (literal (15 / 1000))),
           (''min'', PyFloat (literal (5 / 100))),
           (''max'', PyFloat (literal (15 / 100)))]),
       (''growth_rate'',
          [(''mean'', PyFloat GROWTH_RATE),
           (''std'', PyFloat (literal (12 / 1000))),
           (''min'', PyFloat (literal (2 / 100))),
           (''max'', PyFloat (literal (10 / 100)))]),
       (''hours_multiplier'',
          [(''mean'', PyFloat (literal 1)),
           (''std'', PyFloat (literal (10 / 100))),
           (''min'', PyFloat (literal (70 / 100))),
           (''max'', PyFloat (literal (130 / 100)))]),
       (''wage_multiplier'',
          [(''mean'', PyFloat (literal 1)),
           (''std'', PyFloat (literal (10 / 100))),
           (''min'', PyFloat (literal (80 / 100))),
           (''max'', PyFloat (literal (130 / 100)))]),
       (''lifecycle_cost'',
          [(''mean'', PyInt LIFECYCLE_COST_LUMP),
           (''std'', PyFloat (Finite 750000)),
           (''min'', PyFloat (Finite 2500000)),
           (''max'', PyFloat (Finite 7500000))])]"

section \<open>Rounding to binary64\<close>

lemma two_powi_less_cancel: "(2::rat) powi a < 2 powi b \<Longrightarrow> a < b"
  by (metis linorder_not_less one_le_numeral power_int_increasing)

lemma two_powi_le_cancel: "(2::rat) powi a \<le> 2 powi b \<Longrightarrow> a \<le> b"
  by (metis linorder_not_less one_less_numeral_iff power_int_strict_increasing semiring_norm(76))

lemma bitlen_bounds_rat:
  assumes "0 < a"
  shows "(2::rat) powi (bitlen a - 1) \<le> of_int a" "of_int a < (2::rat) powi (bitlen a)"
proof -
  from bitlen_bounds[OF assms]
  have 1: "2 ^ nat (bitlen a - 1) \<le> a" and 2: "a < 2 ^ nat (bitlen a)" by simp_all
  have ge: "bitlen a \<ge> 1" using assms by (auto simp: bitlen_alt_def)
  from 1 have "(of_int (2 ^ nat (bitlen a - 1)) :: rat) \<le> of_int a"
    by (simp only: of_int_le_iff)
  then show "(2::rat) powi (bitlen a - 1) \<le> of_int a"
    using ge by (simp add: power_int_def)
  from 2 have "(of_int a :: rat) < of_int (2 ^ nat (bitlen a))"
    by (simp only: of_int_less_iff)
  then show "of_int a < (2::rat) powi (bitlen a)"
    using ge by (simp add: power_int_def)
qed

lemma floor_log2_bounds:
  assumes "0 < q"
  shows "2 powi (floor_log2 q) \<le> q" "q < 2 powi (floor_log2 q + 1)"
proof -
  obtain a b where ab: "quotient_of q = (a, b)" by (cases "quotient_of q")
  then have b: "0 < b" and q: "q = of_int a / of_int b"
    using quotient_of_denom_pos quotient_of_div by blast+
  with assms have a: "0 < a"
    by (simp add: zero_less_divide_iff)
  define k where "k = bitlen a - bitlen b"
  have fl: "floor_log2 q = (if 2 powi k \<le> q then k else k - 1)"
    by (simp add: floor_log2_def ab k_def)
  have bq: "(0::rat) < of_int b" using b by simp
  have lo: "2 powi (k - 1) \<le> q"
  proof -
    have "(2::rat) powi (k - 1) * of_int b \<le> 2 powi (k - 1) * 2 powi (bitlen b)"
      using bitlen_bounds_rat(2)[OF b] by (simp add: less_imp_le)
    also have "\<dots> = 2 powi (bitlen a - 1)"
      by (simp add: k_def flip: power_int_add)
    also have "\<dots> \<le> of_int a" by (rule bitlen_bounds_rat(1)[OF a])
    finally show ?thesis using bq by (simp add: q pos_le_divide_eq)
  qed
  have hi: "q < 2 powi (k + 1)"
  proof -
    have "(of_int a :: rat) < 2 powi (bitlen a)" by (rule bitlen_bounds_rat(2)[OF a])
    also have "\<dots> = 2 powi (k + 1) * 2 powi (bitlen b - 1)"
      by (simp add: k_def flip: power_int_add)
    also have "\<dots> \<le> 2 powi (k + 1) * of_int b"
      using bitlen_bounds_rat(1)[OF b] by simp
    finally show ?thesis using bq by (simp add: q pos_divide_less_eq)
  qed
  show "2 powi (floor_log2 q) \<le> q" using lo by (simp add: fl)
  show "q < 2 powi (floor_log2 q + 1)" using hi by (auto simp add: fl not_le)
qed

lemma floor_log2_unique:
  assumes "2 powi e \<le> q" "q < 2 powi (e + 1)"
  shows "floor_log2 q = e"
proof -
  have "(0::rat) < 2 powi e" by simp
  with assms have q: "0 < q" by linarith
  from floor_log2_bounds[OF q] assms
  have "(2::rat) powi (floor_log2 q) < 2 powi (e + 1)" "(2::rat) powi e < 2 powi (floor_log2 q + 1)"
    by linarith+
  then have "floor_log2 q < e + 1" "e < floor_log2 q + 1"
    using two_powi_less_cancel by blast+
  then show ?thesis by linarith
qed

lemma floor_log2_mono:
  assumes "0 < p" "p \<le> q"
  shows "floor_log2 p \<le> floor_log2 q"
proof -
  from assms have q: "0 < q" by linarith
  from floor_log2_bounds(1)[OF assms(1)] floor_log2_bounds(2)[OF q] assms(2)
  have "(2::rat) powi (floor_log2 p) < 2 powi (floor_log2 q + 1)" by linarith
  then have "floor_log2 p < floor_log2 q + 1" by (rule two_powi_less_cancel)
  then show ?thesis by linarith
qed


lemma round_half_even_of_int: "round_half_even (of_int n) = n"
  by (simp add: round_half_even_def)

lemma round_half_even_mono:
  assumes "x \<le> y"
  shows "round_half_even x \<le> round_half_even y"
proof (cases "\<lfloor>x\<rfloor> = \<lfloor>y\<rfloor>")
  case True
  with assms have "x - of_int \<lfloor>x\<rfloor> \<le> y - of_int \<lfloor>y\<rfloor>" by simp
  with True show ?thesis
    by (auto simp: round_half_even_def Let_def)
next
  case False
  with assms have "\<lfloor>x\<rfloor> < \<lfloor>y\<rfloor>" by (simp add: floor_mono order.not_eq_order_implies_strict)
  moreover have "round_half_even x \<le> \<lfloor>x\<rfloor> + 1" "\<lfloor>y\<rfloor> \<le> round_half_even y"
    by (simp_all add: round_half_even_def Let_def)
  ultimately show ?thesis by linarith
qed

lemma round_half_even_ge: "of_int n \<le> x \<Longrightarrow> n \<le> round_half_even x"
  using round_half_even_mono[of "of_int n" x] by (simp add: round_half_even_of_int)

lemma round_half_even_le: "x \<le> of_int n \<Longrightarrow> round_half_even x \<le> n"
  using round_half_even_mono[of x "of_int n"] by (simp add: round_half_even_of_int)

lemma round_half_even_error: "\<bar>of_int (round_half_even x) - x\<bar> \<le> 1 / 2"
proof -
  have "of_int \<lfloor>x\<rfloor> \<le> x" "x < of_int \<lfloor>x\<rfloor> + 1" by linarith+
  then show ?thesis
    by (auto simp: round_half_even_def Let_def abs_le_iff)
qed

lemma ulp_exponent_mono:
  assumes "0 < p" "p \<le> q"
  shows "ulp_exponent p \<le> ulp_exponent q"
  using floor_log2_mono[of "\<bar>p\<bar>" "\<bar>q\<bar>"] assms by (simp add: ulp_exponent_def)

lemma scaled_less:
  assumes "0 < p"
  shows "p / 2 powi (ulp_exponent p) < 2 ^ 53"
proof -
  have "floor_log2 p + 1 \<le> ulp_exponent p + 53"
    using assms by (simp add: ulp_exponent_def)
  then have "(2::rat) powi (floor_log2 p + 1) \<le> 2 powi (ulp_exponent p + 53)"
    by (intro power_int_increasing) simp_all
  with floor_log2_bounds(2)[OF assms]
  have "p < 2 powi (ulp_exponent p + 53)" by linarith
  also have "\<dots> = 2 ^ 53 * 2 powi (ulp_exponent p)"
    by (simp add: power_int_add)
  finally show ?thesis by (simp add: pos_divide_less_eq)
qed

lemma scaled_ge:
  assumes "0 < q" "- 1022 \<le> floor_log2 q"
  shows "2 ^ 52 \<le> q / 2 powi (ulp_exponent q)"
proof -
  have e: "ulp_exponent q + 52 = floor_log2 q"
    using assms by (simp add: ulp_exponent_def)
  have "(2::rat) ^ 52 * 2 powi (ulp_exponent q) = 2 powi (ulp_exponent q + 52)"
    by (simp add: power_int_add)
  also have "\<dots> \<le> q" using floor_log2_bounds(1)[OF assms(1)] by (simp add: e)
  finally show ?thesis by (simp add: pos_le_divide_eq)
qed

lemma round_nearest_pos:
  "q \<noteq> 0 \<Longrightarrow> round_nearest q =
     of_int (round_half_even (q / 2 powi (ulp_exponent q))) * 2 powi (ulp_exponent q)"
  by (simp add: round_nearest_def Let_def)

lemma round_nearest_mono_pos:
  assumes "0 < p" "p \<le> q"
  shows "round_nearest p \<le> round_nearest q"
proof -
  from assms have q: "0 < q" by linarith
  let ?ep = "ulp_exponent p" and ?eq = "ulp_exponent q"
  have le: "?ep \<le> ?eq" by (rule ulp_exponent_mono[OF assms])
  show ?thesis
  proof (cases "?ep = ?eq")
    case True
    have "p / 2 powi ?eq \<le> q / 2 powi ?eq"
      using assms(2) by (simp add: divide_right_mono)
    then have "round_half_even (p / 2 powi ?eq) \<le> round_half_even (q / 2 powi ?eq)"
      by (rule round_half_even_mono)
    then have "(of_int (round_half_even (p / 2 powi ?eq)) :: rat) * 2 powi ?eq
        \<le> of_int (round_half_even (q / 2 powi ?eq)) * 2 powi ?eq"
      by (intro mult_right_mono) simp_all
    with True assms q show ?thesis by (simp add: round_nearest_pos)
  next
    case False
    with le have lt: "?ep < ?eq" by simp
    have "- 1074 \<le> ?ep" by (simp add: ulp_exponent_def)
    with lt have n: "- 1022 \<le> floor_log2 q"
      using q unfolding ulp_exponent_def by linarith
    have "round_half_even (p / 2 powi ?ep) \<le> 2 ^ 53"
      using scaled_less[OF assms(1)] by (intro round_half_even_le) simp
    then have "(of_int (round_half_even (p / 2 powi ?ep)) :: rat) \<le> of_int (2 ^ 53)"
      by (simp only: of_int_le_iff)
    then have "(of_int (round_half_even (p / 2 powi ?ep)) :: rat) * 2 powi ?ep
        \<le> 2 ^ 53 * 2 powi ?ep"
      by (intro mult_right_mono) simp_all
    also have "\<dots> = 2 powi (?ep + 53)" by (simp add: power_int_add)
    also have "\<dots> \<le> 2 powi (?eq + 52)"
      using lt by (intro power_int_increasing) simp_all
    also have "\<dots> = 2 ^ 52 * 2 powi ?eq" by (simp add: power_int_add)
    also have "\<dots> \<le> of_int (round_half_even (q / 2 powi ?eq)) * 2 powi ?eq"
    proof -
      have "2 ^ 52 \<le> round_half_even (q / 2 powi ?eq)"
        using scaled_ge[OF q n] by (intro round_half_even_ge) simp
      then have "(of_int (2 ^ 52) :: rat) \<le> of_int (round_half_even (q / 2 powi ?eq))"
        by (simp only: of_int_le_iff)
      then show ?thesis by (intro mult_right_mono) simp_all
    qed
    finally show ?thesis using assms q by (simp add: round_nearest_pos)
  qed
qed

lemma round_nearest_nonneg: "0 \<le> q \<Longrightarrow> 0 \<le> round_nearest q"
proof (cases "q = 0")
  case True then show ?thesis by (simp add: round_nearest_def)
next
  case False
  assume "0 \<le> q"
  with False have "0 \<le> q / 2 powi (ulp_exponent q)" by simp
  then have "0 \<le> round_half_even (q / 2 powi (ulp_exponent q))"
    using round_half_even_ge[of 0] by simp
  with False show ?thesis by (simp add: round_nearest_pos)
qed

lemma round_nearest_mono:
  assumes "0 \<le> p" "p \<le> q"
  shows "round_nearest p \<le> round_nearest q"
proof (cases "p = 0")
  case True
  with assms round_nearest_nonneg[of q] show ?thesis by (simp add: round_nearest_def)
next
  case False
  with assms round_nearest_mono_pos[of p q] show ?thesis by simp
qed


lemma round_half_even_eqI:
  assumes "\<bar>q - of_int m\<bar> < 1 / 2"
  shows "round_half_even q = m"
proof -
  from assms have lo: "of_int m - 1 / 2 < q" and hi: "q < of_int m + 1 / 2" by linarith+
  from hi have "q < of_int (m + 1)" by simp
  then have 1: "\<lfloor>q\<rfloor> < m + 1" by (simp only: floor_less_iff)
  from lo have "of_int (m - 1) \<le> q" by simp
  then have 2: "m - 1 \<le> \<lfloor>q\<rfloor>" by (simp only: le_floor_iff)
  from 1 2 have "\<lfloor>q\<rfloor> = m \<or> \<lfloor>q\<rfloor> = m - 1" by linarith
  then show ?thesis
  proof
    assume "\<lfloor>q\<rfloor> = m"
    with hi show ?thesis by (simp add: round_half_even_def Let_def)
  next
    assume f: "\<lfloor>q\<rfloor> = m - 1"
    with lo have "\<not> q - of_int (m - 1) < 1 / 2" "q - of_int (m - 1) \<noteq> 1 / 2" by simp_all
    with f show ?thesis by (simp add: round_half_even_def Let_def)
  qed
qed

lemma round_nearest_bound:
  assumes "q \<noteq> 0"
  shows "\<bar>round_nearest q\<bar> \<le> 2 powi (ulp_exponent q + 53)"
proof -
  let ?e = "ulp_exponent q"
  from assms have a: "0 < \<bar>q\<bar>" by simp
  have e: "ulp_exponent \<bar>q\<bar> = ?e" by (simp add: ulp_exponent_def)
  have "\<bar>q\<bar> / 2 powi ?e < 2 ^ 53" using scaled_less[OF a] by (simp add: e)
  then have "\<bar>q / 2 powi ?e\<bar> < of_int (2 ^ 53)" by simp
  then have "- of_int (2 ^ 53) \<le> q / 2 powi ?e" "q / 2 powi ?e \<le> of_int (2 ^ 53)"
    by linarith+
  then have "- (2 ^ 53) \<le> round_half_even (q / 2 powi ?e)" "round_half_even (q / 2 powi ?e) \<le> 2 ^ 53"
    using round_half_even_ge[of "- (2 ^ 53)"] round_half_even_le[of _ "2 ^ 53"] by simp_all
  then have "\<bar>round_half_even (q / 2 powi ?e)\<bar> \<le> 2 ^ 53" by simp
  then have "\<bar>of_int (round_half_even (q / 2 powi ?e)) :: rat\<bar> \<le> of_int (2 ^ 53)"
    by (simp only: of_int_le_iff flip: of_int_abs)
  then have "\<bar>of_int (round_half_even (q / 2 powi ?e)) :: rat\<bar> * 2 powi ?e \<le> 2 ^ 53 * 2 powi ?e"
    by (intro mult_right_mono) simp_all
  then show ?thesis using assms
    by (simp add: round_nearest_pos abs_mult power_int_add mult.commute)
qed

lemma round_half_even_tie:
  assumes "q - of_int f = 1 / 2"
  shows "round_half_even q = (if even f then f else f + 1)"
proof -
  from assms have "of_int f \<le> q" "q < of_int f + 1" by linarith+
  then have "\<lfloor>q\<rfloor> = f" by (simp add: floor_unique)
  with assms show ?thesis by (simp add: round_half_even_def Let_def)
qed

lemma round64_evalI:
  assumes "2 powi k \<le> \<bar>q\<bar>" "\<bar>q\<bar> < 2 powi (k + 1)" "- 1022 \<le> k" "k < 1023"
    and "round_half_even (q / 2 powi (k - 52)) = m"
  shows "round64 q = Finite (of_int m * 2 powi (k - 52))"
proof -
  have k: "floor_log2 \<bar>q\<bar> = k" by (rule floor_log2_unique[OF assms(1,2)])
  with assms(3) have e: "ulp_exponent q = k - 52" by (simp add: ulp_exponent_def)
  have "(0::rat) < 2 powi k" by simp
  with assms(1) have "0 < \<bar>q\<bar>" by linarith
  then have nz: "q \<noteq> 0" by simp
  have r: "round_nearest q = of_int m * 2 powi (k - 52)"
    using assms(5) nz by (simp add: round_nearest_pos e)
  have "ulp_exponent q + 53 = k + 1" by (simp add: e)
  with round_nearest_bound[OF nz] have "\<bar>round_nearest q\<bar> \<le> 2 powi (k + 1)"
    by (simp only:)
  also have "\<dots> \<le> 2 powi 1023" using assms(4) by (intro power_int_increasing) simp_all
  also have "\<dots> < 2 powi 1024" by (intro power_int_strict_increasing) simp_all
  finally have "\<bar>round_nearest q\<bar> < 2 ^ 1024" by simp
  then have "\<not> 2 ^ 1024 \<le> round_nearest q" "\<not> round_nearest q \<le> - (2 ^ 1024)"
    by (simp_all add: abs_less_iff)
  then show ?thesis unfolding round64_def Let_def r[symmetric] by (simp only: if_False)
qed

lemma round64_eqI:
  assumes "2 powi k \<le> \<bar>q\<bar>" "\<bar>q\<bar> < 2 powi (k + 1)" "- 1022 \<le> k" "k < 1023"
    and "\<bar>q / 2 powi (k - 52) - of_int m\<bar> < 1 / 2"
  shows "round64 q = Finite (of_int m * 2 powi (k - 52))"
  using round64_evalI[OF assms(1-4) round_half_even_eqI[OF assms(5)]] .

lemma round64_tie_evenI:
  assumes "2 powi k \<le> \<bar>q\<bar>" "\<bar>q\<bar> < 2 powi (k + 1)" "- 1022 \<le> k" "k < 1023"
    and "q / 2 powi (k - 52) - of_int m = 1 / 2" "even m"
  shows "round64 q = Finite (of_int m * 2 powi (k - 52))"
  using round64_evalI[OF assms(1-4)] round_half_even_tie[OF assms(5)] assms(6) by simp

lemma round64_tie_oddI:
  assumes "2 powi k \<le> \<bar>q\<bar>" "\<bar>q\<bar> < 2 powi (k + 1)" "- 1022 \<le> k" "k < 1023"
    and "q / 2 powi (k - 52) - of_int (m - 1) = 1 / 2" "odd (m - 1)"
  shows "round64 q = Finite (of_int m * 2 powi (k - 52))"
  using round64_evalI[OF assms(1-4), of m] round_half_even_tie[OF assms(5)] assms(6) by simp

lemma round_nearest_0: "round_nearest 0 = 0"
  by (simp add: round_nearest_def)

lemma round64_0: "round64 0 = Finite 0"
  by (simp add: round64_def round_nearest_0)

lemma round64_finite:
  assumes "\<bar>q\<bar> < 2 powi 1023"
  shows "round64 q = Finite (round_nearest q)"
proof (cases "q = 0")
  case True
  then show ?thesis by (simp add: round64_0 round_nearest_0)
next
  case False
  then have a: "0 < \<bar>q\<bar>" by simp
  from floor_log2_bounds(1)[OF a] assms have "(2::rat) powi (floor_log2 \<bar>q\<bar>) < 2 powi 1023"
    by linarith
  then have "floor_log2 \<bar>q\<bar> < 1023" by (rule two_powi_less_cancel)
  then have "ulp_exponent q + 53 \<le> 1023" by (simp add: ulp_exponent_def)
  then have "(2::rat) powi (ulp_exponent q + 53) \<le> 2 powi 1023"
    by (intro power_int_increasing) simp_all
  with round_nearest_bound[OF False] have "\<bar>round_nearest q\<bar> \<le> 2 powi 1023" by linarith
  also have "\<dots> < 2 powi 1024" by (intro power_int_strict_increasing) simp_all
  finally have "\<bar>round_nearest q\<bar> < 2 ^ 1024" by simp
  then have "\<not> 2 ^ 1024 \<le> round_nearest q" "\<not> round_nearest q \<le> - (2 ^ 1024)"
    by (simp_all add: abs_less_iff)
  then show ?thesis unfolding round64_def Let_def by (simp only: if_False)
qed

lemma round64_nonneg:
  assumes "0 \<le> q"
  shows "round64 q = PosInf \<or> (round64 q = Finite (round_nearest q) \<and> 0 \<le> round_nearest q)"
  using round_nearest_nonneg[OF assms] by (auto simp: round64_def Let_def)

lemma round64_mono:
  assumes "0 \<le> p" "p \<le> q"
  shows "fle (round64 p) (round64 q)"
proof -
  from assms have q: "0 \<le> q" by linarith
  have m: "round_nearest p \<le> round_nearest q" by (rule round_nearest_mono[OF assms])
  have np: "0 \<le> round_nearest p" by (rule round_nearest_nonneg[OF assms(1)])
  have nq: "0 \<le> round_nearest q" by (rule round_nearest_nonneg[OF q])
  show ?thesis
  proof (cases "2 ^ 1024 \<le> round_nearest p")
    case True
    with m have "2 ^ 1024 \<le> round_nearest q" by linarith
    with True show ?thesis by (simp add: round64_def Let_def)
  next
    case False
    with np have p: "round64 p = Finite (round_nearest p)" by (simp add: round64_def Let_def)
    show ?thesis
    proof (cases "2 ^ 1024 \<le> round_nearest q")
      case True
      then show ?thesis by (simp add: p) (simp add: round64_def Let_def)
    next
      case False
      with nq have "round64 q = Finite (round_nearest q)" by (simp add: round64_def Let_def)
      with p m show ?thesis by simp
    qed
  qed
qed

lemma round64_nonneg_fle: "0 \<le> q \<Longrightarrow> fle (Finite 0) (round64 q)"
  using round64_mono[of 0 q] by (simp add: round64_0)

lemma round_nearest_of_int:
  assumes "\<bar>n\<bar> < 2 ^ 53"
  shows "round_nearest (of_int n) = of_int n"
proof (cases "n = 0")
  case True
  then show ?thesis by (simp add: round_nearest_0)
next
  case False
  let ?q = "of_int n :: rat"
  let ?k = "floor_log2 \<bar>?q\<bar>"
  from False have a: "0 < \<bar>?q\<bar>" by simp
  from False have "1 \<le> \<bar>n\<bar>" by linarith
  then have "(of_int 1 :: rat) \<le> of_int \<bar>n\<bar>" by (simp only: of_int_le_iff)
  then have one: "1 \<le> \<bar>?q\<bar>" by simp
  have "floor_log2 1 = 0" by (rule floor_log2_unique) simp_all
  with floor_log2_mono[of 1 "\<bar>?q\<bar>"] one have k0: "0 \<le> ?k" by simp
  from assms have "(of_int \<bar>n\<bar> :: rat) < of_int (2 ^ 53)" by (simp only: of_int_less_iff)
  then have "\<bar>?q\<bar> < 2 powi 53" by simp
  with floor_log2_bounds(1)[OF a] have "(2::rat) powi ?k < 2 powi 53" by linarith
  then have k53: "?k < 53" by (rule two_powi_less_cancel)
  from k0 have e: "ulp_exponent ?q = ?k - 52" by (simp add: ulp_exponent_def)
  define j where "j = nat (52 - ?k)"
  have j: "int j = 52 - ?k" using k53 by (simp add: j_def)
  have p: "(2::rat) powi (?k - 52) = 1 / 2 ^ j"
  proof -
    have "?k - 52 = - int j" using j by simp
    then show ?thesis by (simp add: power_int_minus_divide)
  qed
  have "?q / 2 powi (?k - 52) = of_int (n * 2 ^ j)" by (simp add: p)
  then have "round_half_even (?q / 2 powi (?k - 52)) = n * 2 ^ j"
    by (simp only: round_half_even_of_int)
  then show ?thesis using False by (simp add: round_nearest_pos e p)
qed

lemma round64_of_int:
  assumes "\<bar>n\<bar> < 2 ^ 53"
  shows "round64 (of_int n) = Finite (of_int n)"
proof -
  from assms have "(of_int \<bar>n\<bar> :: rat) < of_int (2 ^ 53)" by (simp only: of_int_less_iff)
  then have "\<bar>of_int n :: rat\<bar> < 2 powi 53" by simp
  also have "(2::rat) powi 53 < 2 powi 1023" by (intro power_int_strict_increasing) simp_all
  finally show ?thesis using round64_finite round_nearest_of_int[OF assms] by simp
qed

lemma float_of_int_exact: "\<bar>n\<bar> < 2 ^ 53 \<Longrightarrow> float_of_int n = Inr (exact n)"
  by (simp add: float_of_int_def round64_of_int exact_def)

lemma round_nearest_error:
  assumes "2 powi (- 1022) \<le> q"
  shows "\<bar>round_nearest q - q\<bar> \<le> q / 2 ^ 53"
proof -
  have "(0::rat) < 2 powi (- 1022)" by simp
  with assms have q: "0 < q" by linarith
  let ?k = "floor_log2 q"
  from floor_log2_bounds(2)[OF q] assms have "(2::rat) powi (- 1022) < 2 powi (?k + 1)"
    by linarith
  then have "- 1022 < ?k + 1" by (rule two_powi_less_cancel)
  then have e: "ulp_exponent q = ?k - 52" using q by (simp add: ulp_exponent_def)
  let ?s = "(2::rat) powi (?k - 52)"
  have s: "0 < ?s" by simp
  have "round_nearest q - q = (of_int (round_half_even (q / ?s)) - q / ?s) * ?s"
    using q by (simp add: round_nearest_pos e algebra_simps)
  then have "\<bar>round_nearest q - q\<bar> = \<bar>of_int (round_half_even (q / ?s)) - q / ?s\<bar> * ?s"
    by (simp add: abs_mult)
  also have "\<dots> \<le> 1 / 2 * ?s"
    using round_half_even_error[of "q / ?s"] by (intro mult_right_mono) simp_all
  also have "\<dots> = 2 powi ?k / 2 ^ 53"
  proof -
    have "(2::rat) powi (?k - 52) * 2 powi 52 = 2 powi (?k - 52 + 52)"
      by (rule power_int_add[symmetric]) simp
    then have "(2::rat) powi ?k = 2 powi (?k - 52) * 2 ^ 52" by simp
    then show ?thesis by simp
  qed
  also have "\<dots> \<le> q / 2 ^ 53"
    using floor_log2_bounds(1)[OF q] by (simp add: divide_right_mono)
  finally show ?thesis .
qed

lemma round_nearest_powi:
  assumes "- 1022 \<le> n"
  shows "round_nearest (2 powi n) = 2 powi n"
proof -
  have "(2::rat) powi n < 2 powi (n + 1)" by (intro power_int_strict_increasing) simp_all
  then have "floor_log2 (2 powi n) = n" by (intro floor_log2_unique) simp_all
  then have e: "ulp_exponent (2 powi n) = n - 52" using assms by (simp add: ulp_exponent_def)
  have "(2::rat) powi 52 * 2 powi (n - 52) = 2 powi (52 + (n - 52))"
    by (rule power_int_add[symmetric]) simp
  then have s: "(2::rat) powi n = 2 powi 52 * 2 powi (n - 52)" by simp
  then have "(2::rat) powi n / 2 powi (n - 52) = of_int (2 ^ 52)" by simp
  then have "round_half_even ((2::rat) powi n / 2 powi (n - 52)) = 2 ^ 52"
    by (simp only: round_half_even_of_int)
  then have "round_nearest (2 powi n) = of_int (2 ^ 52) * 2 powi (n - 52)"
    by (simp add: round_nearest_pos e)
  also have "\<dots> = 2 powi n" using s by simp
  finally show ?thesis .
qed

lemma round64_overflow:
  assumes "2 ^ 1024 \<le> q"
  shows "round64 q = PosInf"
proof -
  have p: "(2::rat) powi 1024 = 2 ^ 1024" by (simp only: power_int_numeral)
  have "(0::rat) \<le> 2 powi 1024" by simp
  moreover from assms have "(2::rat) powi 1024 \<le> q" by (simp only: p)
  ultimately have "round_nearest (2 powi 1024) \<le> round_nearest q"
    by (rule round_nearest_mono)
  moreover have "round_nearest (2 powi 1024) = 2 powi 1024"
    by (rule round_nearest_powi) simp
  ultimately have "2 ^ 1024 \<le> round_nearest q" by (simp only: p)
  then show ?thesis unfolding round64_def Let_def by (simp only: if_True)
qed


section \<open>The values of the parameters\<close>

lemma RISK_FREE_RATE_val: "RISK_FREE_RATE = Finite (5188146770730811 / 72057594037927936)"
  unfolding RISK_FREE_RATE_def literal_def using round64_eqI[of "- 4" "72 / 1000" 5188146770730811] by simp

lemma INFLATION_PREMIUM_val: "INFLATION_PREMIUM = Finite (3458764513820541 / 144115188075855872)"
  unfolding INFLATION_PREMIUM_def literal_def using round64_eqI[of "- 6" "24 / 1000" 6917529027641082] by simp

lemma HOUSEHOLD_RISK_PREMIUM_val: "HOUSEHOLD_RISK_PREMIUM = Finite (5764607523034235 / 576460752303423488)"
  unfolding HOUSEHOLD_RISK_PREMIUM_def literal_def using round64_eqI[of "- 7" "10 / 1000" 5764607523034235] by simp

lemma discount_sum_1: "fadd (Finite (5188146770730811 / 72057594037927936)) (Finite (3458764513820541 / 144115188075855872)) = Finite (3458764513820541 / 36028797018963968)"
  using round64_tie_oddI[of "- 4" "5188146770730811 / 72057594037927936 + (3458764513820541 / 144115188075855872)" 6917529027641082] by simp

lemma discount_sum_2: "fadd (Finite (3458764513820541 / 36028797018963968)) (Finite (5764607523034235 / 576460752303423488)) = Finite (7638104968020361 / 72057594037927936)"
  using round64_eqI[of "- 4" "3458764513820541 / 36028797018963968 + (5764607523034235 / 576460752303423488)" 7638104968020361] by simp

lemma DISCOUNT_RATE_val: "DISCOUNT_RATE = Finite (7638104968020361 / 72057594037927936)"
  unfolding DISCOUNT_RATE_def RISK_FREE_RATE_val INFLATION_PREMIUM_val HOUSEHOLD_RISK_PREMIUM_val
    discount_sum_1 discount_sum_2 by (rule refl)

lemma WAGE_GROWTH_ASI_val: "WAGE_GROWTH_ASI = Finite (1116892707587883 / 18014398509481984)"
  unfolding WAGE_GROWTH_ASI_def literal_def using round64_eqI[of "- 5" "62 / 1000" 8935141660703064] by simp

lemma WAGE_GROWTH_EPFO_val: "WAGE_GROWTH_EPFO = Finite (8358680908399641 / 144115188075855872)"
  unfolding WAGE_GROWTH_EPFO_def literal_def using round64_eqI[of "- 5" "58 / 1000" 8358680908399641] by simp

lemma CONSERVATIVE_ADJUSTMENT_val: "CONSERVATIVE_ADJUSTMENT = Finite (- (1152921504606847 / 576460752303423488))"
  unfolding CONSERVATIVE_ADJUSTMENT_def literal_def using round64_eqI[of "- 9" "2 / 1000" 4611686018427388] by simp

lemma growth_sum: "fadd (Finite (1116892707587883 / 18014398509481984)) (Finite (8358680908399641 / 144115188075855872)) = Finite (1080863910568919 / 9007199254740992)"
  using round64_tie_evenI[of "- 4" "1116892707587883 / 18014398509481984 + (8358680908399641 / 144115188075855872)" 8646911284551352] by simp

lemma growth_half: "fquot (Finite (1080863910568919 / 9007199254740992)) (Finite 2) = Finite (1080863910568919 / 18014398509481984)"
  using round64_eqI[of "- 5" "1080863910568919 / 9007199254740992 / 2" 8646911284551352] by simp

lemma growth_adjusted: "fadd (Finite (1080863910568919 / 18014398509481984)) (Finite (- (1152921504606847 / 576460752303423488))) = Finite (1044835113549955 / 18014398509481984)"
  using round64_eqI[of "- 5" "1080863910568919 / 18014398509481984 + (- (1152921504606847 / 576460752303423488))" 8358680908399640] by simp

lemma GROWTH_RATE_val: "GROWTH_RATE = Finite (1044835113549955 / 18014398509481984)"
  unfolding GROWTH_RATE_def WAGE_GROWTH_ASI_val WAGE_GROWTH_EPFO_val CONSERVATIVE_ADJUSTMENT_val
    exact_def of_int_numeral growth_sum growth_half growth_adjusted by (rule refl)

lemma MALE_SALARY_PREMIUM_val: "MALE_SALARY_PREMIUM = Finite (3152519739159347 / 9007199254740992)"
  unfolding MALE_SALARY_PREMIUM_def literal_def using round64_eqI[of "- 2" "35 / 100" 6305039478318694] by simp

lemma premium_factor: "fadd (Finite 1) (Finite (3152519739159347 / 9007199254740992)) = Finite (3039929748475085 / 2251799813685248)"
  using round64_tie_oddI[of 0 "1 + (3152519739159347 / 9007199254740992)" 6079859496950170] by simp

lemma salary_times_factor: "fmul (Finite 1345000) (Finite (3039929748475085 / 2251799813685248)) = Finite (7798586867712001 / 4294967296)"
  using round64_eqI[of 20 "1345000 * (3039929748475085 / 2251799813685248)" 7798586867712001] by simp

lemma male_salary_product_val: "male_salary_product = Finite (7798586867712001 / 4294967296)"
  unfolding male_salary_product_def MALE_SALARY_PREMIUM_val FEMALE_ANNUAL_SALARY_def
    exact_def of_int_numeral of_int_1 premium_factor salary_times_factor by (rule refl)

lemma EMOTIONAL_LABOR_PREMIUM_val: "EMOTIONAL_LABOR_PREMIUM = Finite (3602879701896397 / 18014398509481984)"
  unfolding EMOTIONAL_LABOR_PREMIUM_def literal_def using round64_eqI[of "- 3" "20 / 100" 7205759403792794] by simp

lemma literal_20_100: "literal (20 / 100) = Finite (3602879701896397 / 18014398509481984)"
  unfolding literal_def using round64_eqI[of "- 3" "20 / 100" 7205759403792794] by simp

lemma literal_15_100: "literal (15 / 100) = Finite (5404319552844595 / 36028797018963968)"
  unfolding literal_def using round64_eqI[of "- 3" "15 / 100" 5404319552844595] by simp

lemma literal_50_100: "literal (50 / 100) = Finite (1 / 2)"
  unfolding literal_def using round64_eqI[of "- 1" "50 / 100" 4503599627370496] by simp

lemma literal_16_100: "literal (16 / 100) = Finite (5764607523034235 / 36028797018963968)"
  unfolding literal_def using round64_eqI[of "- 3" "16 / 100" 5764607523034235] by simp

lemma literal_5_100: "literal (5 / 100) = Finite (3602879701896397 / 72057594037927936)"
  unfolding literal_def using round64_eqI[of "- 5" "5 / 100" 7205759403792794] by simp

lemma literal_2_100: "literal (2 / 100) = Finite (5764607523034235 / 288230376151711744)"
  unfolding literal_def using round64_eqI[of "- 6" "2 / 100" 5764607523034235] by simp

lemma literal_10_100: "literal (10 / 100) = Finite (3602879701896397 / 36028797018963968)"
  unfolding literal_def using round64_eqI[of "- 4" "10 / 100" 7205759403792794] by simp

lemma literal_1_1: "literal 1 = Finite 1"
  unfolding literal_def using round64_eqI[of 0 "1" 4503599627370496] by simp

lemma literal_70_100: "literal (70 / 100) = Finite (3152519739159347 / 4503599627370496)"
  unfolding literal_def using round64_eqI[of "- 1" "70 / 100" 6305039478318694] by simp

lemma literal_130_100: "literal (130 / 100) = Finite (5854679515581645 / 4503599627370496)"
  unfolding literal_def using round64_eqI[of 0 "130 / 100" 5854679515581645] by simp

lemma literal_80_100: "literal (80 / 100) = Finite (3602879701896397 / 4503599627370496)"
  unfolding literal_def using round64_eqI[of "- 1" "80 / 100" 7205759403792794] by simp

lemma literal_5_10: "literal (5 / 10) = Finite (1 / 2)"
  unfolding literal_def using round64_eqI[of "- 1" "5 / 10" 4503599627370496] by simp

lemma literal_15_10: "literal (15 / 10) = Finite (3 / 2)"
  unfolding literal_def using round64_eqI[of 0 "15 / 10" 6755399441055744] by simp

lemma literal_15_1000: "literal (15 / 1000) = Finite (1080863910568919 / 72057594037927936)"
  unfolding literal_def using round64_eqI[of "- 7" "15 / 1000" 8646911284551352] by simp

lemma literal_12_1000: "literal (12 / 1000) = Finite (3458764513820541 / 288230376151711744)"
  unfolding literal_def using round64_eqI[of "- 7" "12 / 1000" 6917529027641082] by simp

lemma literal_106_1000: "literal (106 / 1000) = Finite (7638104968020361 / 72057594037927936)"
  unfolding literal_def using round64_eqI[of "- 4" "106 / 1000" 7638104968020361] by simp

lemma lifecycle_min: "fmul (Finite (1 / 2)) (Finite 5000000) = Finite 2500000"
  using round64_eqI[of 21 "1 / 2 * 5000000" 5368709120000000] by simp

lemma lifecycle_max: "fmul (Finite (3 / 2)) (Finite 5000000) = Finite 7500000"
  using round64_eqI[of 22 "3 / 2 * 5000000" 8053063680000000] by simp

lemma lifecycle_std: "fmul (Finite (5404319552844595 / 36028797018963968)) (Finite 5000000) = Finite 750000"
  using round64_eqI[of 19 "5404319552844595 / 36028797018963968 * 5000000" 6442450944000000] by simp


section \<open>Derived constants\<close>

text \<open>
  C5: \<open>DISCOUNT_RATE\<close> is \<open>RISK_FREE_RATE + INFLATION_PREMIUM + HOUSEHOLD_RISK_PREMIUM\<close>,
  that is \<open>0.072 + 0.024 + 0.010\<close> added from the left in binary64 arithmetic, and this
  value lies within \<open>1e-6\<close> of 0.106. It is in fact the very float that the literal
  \<open>0.106\<close> denotes.
\<close>

theorem discount_rate_value:
  "DISCOUNT_RATE = fadd (fadd (literal (72 / 1000)) (literal (24 / 1000))) (literal (10 / 1000)) \<and>
   close_to DISCOUNT_RATE (106 / 1000) (1 / 10 ^ 6) \<and>
   DISCOUNT_RATE = literal (106 / 1000)"
proof -
  have "close_to DISCOUNT_RATE (106 / 1000) (1 / 10 ^ 6)"
    by (simp add: close_to_def DISCOUNT_RATE_val)
  moreover have "DISCOUNT_RATE = literal (106 / 1000)"
    by (simp only: DISCOUNT_RATE_val literal_106_1000)
  ultimately show ?thesis
    by (simp add: DISCOUNT_RATE_def RISK_FREE_RATE_def INFLATION_PREMIUM_def
        HOUSEHOLD_RISK_PREMIUM_def)
qed

text \<open>
  C4: \<open>GROWTH_RATE\<close> is \<open>(WAGE_GROWTH_ASI + WAGE_GROWTH_EPFO) / 2 + CONSERVATIVE_ADJUSTMENT\<close>,
  that is \<open>(0.062 + 0.058) / 2 + -0.002\<close> in binary64 arithmetic, and this value lies
  within \<open>1e-6\<close> of 0.058.
\<close>

theorem growth_rate_value:
  "GROWTH_RATE =
     fadd (fquot (fadd (literal (62 / 1000)) (literal (58 / 1000))) (exact 2))
       (fneg (literal (2 / 1000))) \<and>
   close_to GROWTH_RATE (58 / 1000) (1 / 10 ^ 6)"
proof -
  have "close_to GROWTH_RATE (58 / 1000) (1 / 10 ^ 6)"
    by (simp add: close_to_def GROWTH_RATE_val)
  then show ?thesis
    by (simp add: GROWTH_RATE_def WAGE_GROWTH_ASI_def WAGE_GROWTH_EPFO_def
        CONSERVATIVE_ADJUSTMENT_def)
qed

text \<open>
  C2: \<open>MALE_ANNUAL_SALARY\<close> is the truncation to an int of the float product
  \<open>FEMALE_ANNUAL_SALARY * (1 + MALE_SALARY_PREMIUM)\<close> with the values 1,345,000 and 0.35;
  the product is the float just above 1,815,750, and the constant is exactly 1,815,750.
\<close>

theorem male_annual_salary_value:
  "male_salary_product = fmul (exact 1345000) (fadd (exact 1) (literal (35 / 100))) \<and>
   male_salary_product = Finite (1815750 + 1 / 2 ^ 32) \<and>
   \<lfloor>1815750 + 1 / 2 ^ 32 :: rat\<rfloor> = 1815750 \<and>
   MALE_ANNUAL_SALARY = Inr 1815750"
proof -
  have v: "(7798586867712001 / 4294967296 :: rat) = 1815750 + 1 / 2 ^ 32" by simp
  have f: "\<lfloor>7798586867712001 / 4294967296 :: rat\<rfloor> = 1815750"
    by (rule floor_unique) simp_all
  have "male_salary_product = fmul (exact 1345000) (fadd (exact 1) (literal (35 / 100)))"
    by (simp add: male_salary_product_def FEMALE_ANNUAL_SALARY_def MALE_SALARY_PREMIUM_def)
  moreover have "male_salary_product = Finite (1815750 + 1 / 2 ^ 32)"
    by (simp only: male_salary_product_val v)
  moreover have "\<lfloor>1815750 + 1 / 2 ^ 32 :: rat\<rfloor> = 1815750"
    using f by (simp only: v)
  moreover have "MALE_ANNUAL_SALARY = Inr 1815750"
    by (simp add: MALE_ANNUAL_SALARY_def male_salary_product_val f)
  ultimately show ?thesis by blast
qed

section \<open>The Monte Carlo specification\<close>

lemma lump_as_float: "float_of_int LIFECYCLE_COST_LUMP = Inr (Finite 5000000)"
proof -
  have "round64 5000000 = Finite 5000000"
    using round64_eqI[of 22 5000000 5368709120000000] by simp
  then show ?thesis by (simp add: float_of_int_def LIFECYCLE_COST_LUMP_def)
qed

lemma lifecycle_products:
  "py_mul (PyFloat (literal (15 / 100))) (PyInt LIFECYCLE_COST_LUMP) = Inr (PyFloat (Finite 750000))"
  "py_mul (PyFloat (literal (5 / 10))) (PyInt LIFECYCLE_COST_LUMP) = Inr (PyFloat (Finite 2500000))"
  "py_mul (PyFloat (literal (15 / 10))) (PyInt LIFECYCLE_COST_LUMP) = Inr (PyFloat (Finite 7500000))"
  unfolding py_mul.simps as_float.simps lump_as_float and_then_def sum.case
    literal_15_100 literal_5_10 literal_15_10 lifecycle_std lifecycle_min lifecycle_max
  by (rule refl)+

lemma MC_PARAMS_rows: "MC_PARAMS = Inr module_rows"
  unfolding MC_PARAMS_def mc_params_def lifecycle_products module_rows_def
  by (simp add: and_then_def)

text \<open>
  C9: \<open>MC_ITERATIONS\<close> is at least 1000, and each of the five entries of
  \<open>MC_PARAMS\<close> (\<open>discount_rate\<close>, \<open>growth_rate\<close>, \<open>hours_multiplier\<close>,
  \<open>wage_multiplier\<close>, \<open>lifecycle_cost\<close>) has \<open>min <= mean <= max\<close>.
\<close>

theorem monte_carlo_invariant:
  "1000 \<le> MC_ITERATIONS \<and>
   (\<exists>rows. MC_PARAMS = Inr rows \<and>
      checked_rows rows =
        [(''discount_rate'', True), (''growth_rate'', True), (''hours_multiplier'', True),
         (''wage_multiplier'', True), (''lifecycle_cost'', True)])"
proof -
  have "checked_rows module_rows =
        [(''discount_rate'', True), (''growth_rate'', True), (''hours_multiplier'', True),
         (''wage_multiplier'', True), (''lifecycle_cost'', True)]"
    unfolding module_rows_def DISCOUNT_RATE_val GROWTH_RATE_val LIFECYCLE_COST_LUMP_def
        literal_5_100 literal_15_100 literal_2_100 literal_10_100 literal_1_1
        literal_70_100 literal_130_100 literal_80_100
    by (simp add: checked_rows_def bounds_enclose_mean_def num_le_def)
  with MC_PARAMS_rows show ?thesis
    by (intro conjI exI[of _ module_rows]) (simp_all add: MC_ITERATIONS_def)
qed

lemma mc_params_means:
  assumes "mc_params d g l = Inr rows"
  shows "entry rows ''discount_rate'' ''mean'' = Some d \<and>
         entry rows ''growth_rate'' ''mean'' = Some g \<and>
         entry rows ''lifecycle_cost'' ''mean'' = Some l"
  using assms
  by (auto simp: mc_params_def and_then_def entry_def split: sum.splits)

text \<open>
  C10: the means of the \<open>discount_rate\<close>, \<open>growth_rate\<close> and \<open>lifecycle_cost\<close>
  entries of \<open>MC_PARAMS\<close> are \<open>DISCOUNT_RATE\<close>, \<open>GROWTH_RATE\<close> and
  \<open>LIFECYCLE_COST_LUMP\<close> themselves; and whatever values these three names have when
  the table is built, the three means are those values.
\<close>

theorem mc_means_are_baselines:
  "(\<exists>rows. MC_PARAMS = Inr rows \<and>
      entry rows ''discount_rate'' ''mean'' = Some (PyFloat DISCOUNT_RATE) \<and>
      entry rows ''growth_rate'' ''mean'' = Some (PyFloat GROWTH_RATE) \<and>
      entry rows ''lifecycle_cost'' ''mean'' = Some (PyInt LIFECYCLE_COST_LUMP)) \<and>
   (\<forall>d g l rows. mc_params d g l = Inr rows \<longrightarrow>
      entry rows ''discount_rate'' ''mean'' = Some d \<and>
      entry rows ''growth_rate'' ''mean'' = Some g \<and>
      entry rows ''lifecycle_cost'' ''mean'' = Some l)"
proof -
  have "mc_params (PyFloat DISCOUNT_RATE) (PyFloat GROWTH_RATE) (PyInt LIFECYCLE_COST_LUMP)
      = Inr module_rows"
    using MC_PARAMS_rows by (simp only: MC_PARAMS_def)
  from mc_params_means[OF this] MC_PARAMS_rows mc_params_means show ?thesis by blast
qed

theorem mc_means_are_baselines_witness:
  "mc_params (PyFloat DISCOUNT_RATE) (PyFloat GROWTH_RATE) (PyInt LIFECYCLE_COST_LUMP)
      = Inr module_rows \<and>
   entry module_rows ''discount_rate'' ''mean'' = Some (PyFloat DISCOUNT_RATE) \<and>
   entry module_rows ''growth_rate'' ''mean'' = Some (PyFloat GROWTH_RATE) \<and>
   entry module_rows ''lifecycle_cost'' ''mean'' = Some (PyInt LIFECYCLE_COST_LUMP)"
proof -
  have h: "mc_params (PyFloat DISCOUNT_RATE) (PyFloat GROWTH_RATE) (PyInt LIFECYCLE_COST_LUMP)
      = Inr module_rows"
    using MC_PARAMS_rows by (simp only: MC_PARAMS_def)
  with mc_means_are_baselines show ?thesis by blast
qed

section \<open>Validating the parameters\<close>

text \<open>
  C3: \<open>validate_parameters\<close> succeeds on the module's own settings; with the growth
  rate set to 0.16 and all else unchanged it fails with the assertion error that names the
  growth rate and shows its value; and on any settings the five checks (discount rate in
  (0, 0.20), growth rate in [0, 0.15), time horizon above 0, at least 1000 Monte Carlo
  iterations, emotional labor premium in [0, 0.50]) are made in this order, the first one
  violated being the one reported.
\<close>

theorem validate_parameters_order:
  "validate_parameters module_settings =
     Inr (check_mark # ascii '' All parameters validated successfully'') \<and>
   validate_parameters (module_settings\<lparr>growth_rate := PyFloat (literal (16 / 100))\<rparr>) =
     Inl (AssertionError
       [Lit ''Growth rate '', Shown (PyFloat (literal (16 / 100))), Lit '' out of range'']) \<and>
   validate_parameters s =
     (if \<not> (num_lt (PyInt 0) (discount_rate s) \<and>
             num_lt (discount_rate s) (PyFloat (literal (20 / 100))))
      then Inl (AssertionError
             [Lit ''Discount rate '', Shown (discount_rate s), Lit '' out of range''])
      else if \<not> (num_le (PyInt 0) (growth_rate s) \<and>
                  num_lt (growth_rate s) (PyFloat (literal (15 / 100))))
      then Inl (AssertionError
             [Lit ''Growth rate '', Shown (growth_rate s), Lit '' out of range''])
      else if \<not> num_lt (PyInt 0) (time_horizon_years s)
      then Inl (AssertionError [Lit ''Time horizon must be positive''])
      else if \<not> num_le (PyInt 1000) (mc_iterations s)
      then Inl (AssertionError [Lit ''Monte Carlo iterations too low''])
      else if \<not> (num_le (PyInt 0) (emotional_labor_premium s) \<and>
                  num_le (emotional_labor_premium s) (PyFloat (literal (50 / 100))))
      then Inl (AssertionError [Lit ''Emotional labor premium out of range''])
      else Inr (check_mark # ascii '' All parameters validated successfully''))"
proof -
  have a: "validate_parameters module_settings =
     Inr (check_mark # ascii '' All parameters validated successfully'')"
    unfolding validate_parameters_def literal_20_100 literal_15_100 literal_50_100
    by (simp add: module_settings_def and_then_def assert_that_def
        num_lt_def num_le_def DISCOUNT_RATE_val GROWTH_RATE_val EMOTIONAL_LABOR_PREMIUM_val
        TIME_HORIZON_YEARS_def MC_ITERATIONS_def)
  have b: "validate_parameters (module_settings\<lparr>growth_rate := PyFloat (literal (16 / 100))\<rparr>) =
     Inl (AssertionError
       [Lit ''Growth rate '', Shown (PyFloat (literal (16 / 100))), Lit '' out of range''])"
  proof -
    have g: "\<not> num_lt (PyFloat (literal (16 / 100))) (PyFloat (literal (15 / 100)))"
      unfolding literal_16_100 literal_15_100 by (simp add: num_lt_def)
    have d: "num_lt (PyInt 0) (PyFloat DISCOUNT_RATE)"
      "num_lt (PyFloat DISCOUNT_RATE) (PyFloat (literal (20 / 100)))"
      unfolding literal_20_100 DISCOUNT_RATE_val by (simp_all add: num_lt_def)
    show ?thesis
      using g d unfolding validate_parameters_def
      by (simp add: module_settings_def and_then_def assert_that_def)
  qed
  have c: "validate_parameters s = (if \<not> (num_lt (PyInt 0) (discount_rate s) \<and>
             num_lt (discount_rate s) (PyFloat (literal (20 / 100))))
      then Inl (AssertionError
             [Lit ''Discount rate '', Shown (discount_rate s), Lit '' out of range''])
      else if \<not> (num_le (PyInt 0) (growth_rate s) \<and>
                  num_lt (growth_rate s) (PyFloat (literal (15 / 100))))
      then Inl (AssertionError
             [Lit ''Growth rate '', Shown (growth_rate s), Lit '' out of range''])
      else if \<not> num_lt (PyInt 0) (time_horizon_years s)
      then Inl (AssertionError [Lit ''Time horizon must be positive''])
      else if \<not> num_le (PyInt 1000) (mc_iterations s)
      then Inl (AssertionError [Lit ''Monte Carlo iterations too low''])
      else if \<not> (num_le (PyInt 0) (emotional_labor_premium s) \<and>
                  num_le (emotional_labor_premium s) (PyFloat (literal (50 / 100))))
      then Inl (AssertionError [Lit ''Emotional labor premium out of range''])
      else Inr (check_mark # ascii '' All parameters validated successfully''))"
    by (simp add: validate_parameters_def and_then_def assert_that_def)
  from a b c show ?thesis by (simp only: simp_thms)
qed

section \<open>Annual hours\<close>

lemma fle_PosInf: "fle (Finite 0) x \<Longrightarrow> fle x PosInf"
  by (cases x) simp_all

lemma fmul_pos_mono:
  assumes "0 < c" "fle (Finite 0) x" "fle x y"
  shows "fle (Finite 0) (fmul x (Finite c)) \<and> fle (fmul x (Finite c)) (fmul y (Finite c))"
proof (cases x)
  case (Finite a)
  with assms(2) have a: "0 \<le> a" by simp
  with assms(1) have ac: "0 \<le> a * c" by simp
  show ?thesis
  proof (cases y)
    case (Finite b)
    with assms(3) \<open>x = Finite a\<close> have "a \<le> b" by simp
    with assms(1) have "a * c \<le> b * c" by simp
    with ac Finite \<open>x = Finite a\<close> show ?thesis
      by (simp add: round64_mono round64_nonneg_fle)
  next
    case PosInf
    with assms(1) ac \<open>x = Finite a\<close> show ?thesis
      by (simp add: round64_nonneg_fle fle_PosInf)
  next
    case NegInf
    with assms(3) \<open>x = Finite a\<close> show ?thesis by simp
  next
    case NaN
    with assms(3) \<open>x = Finite a\<close> show ?thesis by simp
  qed
next
  case PosInf
  with assms(3) have "y = PosInf" by (cases y) simp_all
  with PosInf assms(1) show ?thesis by simp
next
  case NegInf
  with assms(2) show ?thesis by simp
next
  case NaN
  with assms(2) show ?thesis by simp
qed

lemma fquot_pos_mono:
  assumes "0 < c" "fle (Finite 0) x" "fle x y"
  shows "fle (Finite 0) (fquot x (Finite c)) \<and> fle (fquot x (Finite c)) (fquot y (Finite c))"
proof (cases x)
  case (Finite a)
  with assms(2) have a: "0 \<le> a" by simp
  with assms(1) have ac: "0 \<le> a / c" by simp
  show ?thesis
  proof (cases y)
    case (Finite b)
    with assms(3) \<open>x = Finite a\<close> have "a \<le> b" by simp
    with assms(1) have "a / c \<le> b / c" by (simp add: divide_right_mono)
    with ac Finite \<open>x = Finite a\<close> show ?thesis
      by (simp add: round64_mono round64_nonneg_fle)
  next
    case PosInf
    with assms(1) ac \<open>x = Finite a\<close> show ?thesis
      by (simp add: round64_nonneg_fle fle_PosInf)
  next
    case NegInf
    with assms(3) \<open>x = Finite a\<close> show ?thesis by simp
  next
    case NaN
    with assms(3) \<open>x = Finite a\<close> show ?thesis by simp
  qed
next
  case PosInf
  with assms(3) have "y = PosInf" by (cases y) simp_all
  with PosInf assms(1) show ?thesis by simp
next
  case NegInf
  with assms(2) show ?thesis by simp
next
  case NaN
  with assms(2) show ?thesis by simp
qed

lemma times_365_over_60_mono:
  assumes "fle (Finite 0) x" "fle x y"
  shows "fle (times_365_over_60 x) (times_365_over_60 y)"
proof -
  from fmul_pos_mono[OF _ assms, of 365]
  have "fle (Finite 0) (fmul x (Finite 365))" "fle (fmul x (Finite 365)) (fmul y (Finite 365))"
    by simp_all
  from fquot_pos_mono[OF _ this, of 60] show ?thesis
    by (simp add: times_365_over_60_def)
qed


lemma get_annual_hours_float:
  "get_annual_hours (PyFloat x) = Inr (PyFloat (times_365_over_60 x))"
proof -
  have "float_of_int 365 = Inr (Finite 365)" "float_of_int 60 = Inr (Finite 60)"
    using float_of_int_exact[of 365] float_of_int_exact[of 60] by (simp_all add: exact_def)
  then show ?thesis
    by (simp add: get_annual_hours_def DAYS_PER_YEAR_def MINUTES_PER_HOUR_def and_then_def
        times_365_over_60_def)
qed

lemma annual_hours_int_error:
  assumes "0 \<le> i"
  shows "\<bar>round_nearest (of_int i * 365 / 60) - of_int i * 365 / 60\<bar>
           \<le> (of_int i * 365 / 60) / 2 ^ 53"
proof (cases "i = 0")
  case True
  then show ?thesis by (simp add: round_nearest_0)
next
  case False
  with assms have "1 \<le> i" by linarith
  then have "(of_int 1 :: rat) \<le> of_int i" by (simp only: of_int_le_iff)
  then have "(1::rat) \<le> of_int i * 365 / 60" by simp
  moreover have "(2::rat) powi (- 1022) \<le> 1"
    using power_int_increasing[of "- 1022" 0 "2::rat"] by simp
  ultimately have "(2::rat) powi (- 1022) \<le> of_int i * 365 / 60" by linarith
  then show ?thesis by (rule round_nearest_error)
qed

lemma float_of_days: "float_of_int DAYS_PER_YEAR = Inr (Finite 365)"
  using float_of_int_exact[of 365] by (simp add: exact_def DAYS_PER_YEAR_def)

lemma float_of_minutes: "float_of_int MINUTES_PER_HOUR = Inr (Finite 60)"
  using float_of_int_exact[of 60] by (simp add: exact_def MINUTES_PER_HOUR_def)

lemma py_mul_days: "py_mul m (PyInt DAYS_PER_YEAR) = Inr (product_365 m)"
proof (cases m)
  case (PyInt i)
  then show ?thesis by (simp add: DAYS_PER_YEAR_def)
next
  case (PyFloat x)
  then show ?thesis by (simp add: float_of_days and_then_def)
qed

lemma products_in_order_eq:
  "products_in_order m1 m2 = num_le (product_365 m1) (product_365 m2)"
  by (simp add: products_in_order_def py_mul_days)

lemma get_annual_hours_int:
  "get_annual_hours (PyInt i) =
     (case round64 (of_int i * 365 / 60) of
        Finite r \<Rightarrow> Inr (PyFloat (Finite r))
      | PosInf \<Rightarrow> Inl OverflowError
      | NegInf \<Rightarrow> Inl OverflowError
      | NaN \<Rightarrow> Inl OverflowError)"
  by (simp add: get_annual_hours_def py_mul_days and_then_def MINUTES_PER_HOUR_def
      split: double.splits)

text \<open>Whatever \<open>get_annual_hours\<close> returns is the quotient of the product by 60.\<close>

lemma get_annual_hours_Inr:
  assumes "get_annual_hours m = Inr h"
  shows "h = PyFloat (fquot (magnitude (product_365 m)) (Finite 60))"
proof (cases m)
  case (PyInt i)
  with assms show ?thesis
    by (auto simp: get_annual_hours_int split: double.splits)
next
  case (PyFloat x)
  with assms show ?thesis
    by (simp add: get_annual_hours_float times_365_over_60_def)
qed

lemma product_365_nonneg:
  assumes "num_le (PyInt 0) m"
  shows "fle (Finite 0) (magnitude (product_365 m))"
proof (cases m)
  case (PyInt i)
  with assms show ?thesis by (simp add: num_le_def)
next
  case (PyFloat x)
  with assms have "fle (Finite 0) x" by (simp add: num_le_def)
  from fmul_pos_mono[OF _ this, of 365 x] this PyFloat show ?thesis
    by (cases x) simp_all
qed

lemma get_annual_hours_order:
  assumes "num_le (PyInt 0) m1" "products_in_order m1 m2"
    and "get_annual_hours m1 = Inr h1" "get_annual_hours m2 = Inr h2"
  shows "num_le h1 h2"
proof -
  from assms(2) have "fle (magnitude (product_365 m1)) (magnitude (product_365 m2))"
    by (simp add: products_in_order_eq num_le_def)
  from fquot_pos_mono[OF _ product_365_nonneg[OF assms(1)] this, of 60]
  have "fle (fquot (magnitude (product_365 m1)) (Finite 60))
            (fquot (magnitude (product_365 m2)) (Finite 60))" by simp
  with get_annual_hours_Inr[OF assms(3)] get_annual_hours_Inr[OF assms(4)]
  show ?thesis by (simp add: num_le_def)
qed

lemma same_kind_in_order:
  assumes "num_le (PyInt 0) m1" "num_le m1 m2" "same_kind m1 m2"
  shows "products_in_order m1 m2"
proof (cases m1)
  case (PyInt i)
  with assms(3) obtain j where j: "m2 = PyInt j" by (cases m2) simp_all
  with PyInt assms(2) have "i \<le> j" by (simp add: num_le_def)
  with PyInt j show ?thesis by (simp add: products_in_order_eq num_le_def)
next
  case (PyFloat x)
  with assms(3) obtain y where y: "m2 = PyFloat y" by (cases m2) simp_all
  from PyFloat y assms(1,2) have "fle (Finite 0) x" "fle x y" by (simp_all add: num_le_def)
  from fmul_pos_mono[OF _ this, of 365] PyFloat y show ?thesis
    by (simp add: products_in_order_eq num_le_def)
qed

lemma exact_int_in_order:
  assumes "0 \<le> i" "i * 365 < 2 ^ 53"
  shows "num_le (PyInt i) (PyFloat y) \<Longrightarrow> products_in_order (PyInt i) (PyFloat y)"
    and "num_le (PyInt 0) (PyFloat x) \<Longrightarrow> num_le (PyFloat x) (PyInt i) \<Longrightarrow>
           products_in_order (PyFloat x) (PyInt i)"
proof -
  from assms have "\<bar>i * 365\<bar> < 2 ^ 53" by simp
  from round64_of_int[OF this]
  have e: "fmul (Finite (of_int i)) (Finite 365) = Finite (of_int i * 365)" by simp
  from assms(1) have n: "fle (Finite 0) (Finite (of_int i))" by simp
  {
    assume "num_le (PyInt i) (PyFloat y)"
    then have "fle (Finite (of_int i)) y" by (simp add: num_le_def)
    from fmul_pos_mono[OF _ n this, of 365] e
    show "products_in_order (PyInt i) (PyFloat y)"
      by (simp add: products_in_order_eq num_le_def)
  }
  {
    assume "num_le (PyInt 0) (PyFloat x)" "num_le (PyFloat x) (PyInt i)"
    then have "fle (Finite 0) x" "fle x (Finite (of_int i))" by (simp_all add: num_le_def)
    from fmul_pos_mono[OF _ this, of 365] e
    show "products_in_order (PyFloat x) (PyInt i)"
      by (simp add: products_in_order_eq num_le_def)
  }
qed

lemma get_annual_hours_int_finite:
  assumes "0 \<le> i" "of_int i * 365 / 60 < (2::rat) ^ 1023"
  shows "\<exists>r. get_annual_hours (PyInt i) = Inr (PyFloat (Finite r)) \<and>
             r = round_nearest (of_int i * 365 / 60) \<and>
             \<bar>r - of_int i * 365 / 60\<bar> \<le> (of_int i * 365 / 60) / 2 ^ 53"
proof -
  let ?q = "of_int i * 365 / 60 :: rat"
  from assms(1) have "0 \<le> ?q" by simp
  with assms(2) have "\<bar>?q\<bar> < 2 powi 1023" by simp
  then have "round64 ?q = Finite (round_nearest ?q)" by (rule round64_finite)
  then have "get_annual_hours (PyInt i) = Inr (PyFloat (Finite (round_nearest ?q)))"
    by (simp add: get_annual_hours_int)
  with annual_hours_int_error[OF assms(1)] show ?thesis by blast
qed

lemma get_annual_hours_int_below:
  assumes "0 \<le> i" "i \<le> j" "get_annual_hours (PyInt j) = Inr h2"
  shows "\<exists>h1. get_annual_hours (PyInt i) = Inr h1"
proof -
  let ?p = "of_int i * 365 / 60 :: rat" and ?q = "of_int j * 365 / 60 :: rat"
  from assms(1,2) have "0 \<le> ?p" "?p \<le> ?q" by (simp_all add: divide_right_mono)
  then have m: "fle (round64 ?p) (round64 ?q)" by (rule round64_mono)
  from assms(3) obtain r where r: "round64 ?q = Finite r"
    by (auto simp: get_annual_hours_int split: double.splits)
  from m r obtain s where "round64 ?p = Finite s"
    using round64_nonneg[OF \<open>0 \<le> ?p\<close>] by (cases "round64 ?p") simp_all
  then show ?thesis by (simp add: get_annual_hours_int)
qed

lemma crossing_int: "get_annual_hours (PyInt 24677258232169) =
    Inr (PyFloat (Finite (4803839602528899 / 32)))"
proof -
  have "round64 (of_int 24677258232169 * 365 / 60) = Finite (4803839602528899 / 32)"
    using round64_eqI[of 47 "of_int 24677258232169 * 365 / 60" 4803839602528899] by simp
  then show ?thesis by (simp only: get_annual_hours_int double.case)
qed

lemma crossing_float: "get_annual_hours (PyFloat (Finite 24677258232169)) =
    Inr (PyFloat (Finite (4803839602528898 / 32)))"
proof -
  have 1: "fmul (Finite 24677258232169) (Finite 365) = Finite 9007199254741684"
    using round64_tie_evenI[of 53 "24677258232169 * 365" 4503599627370842] by simp
  have 2: "fquot (Finite 9007199254741684) (Finite 60) = Finite (4803839602528898 / 32)"
    using round64_eqI[of 47 "9007199254741684 / 60" 4803839602528898] by simp
  show ?thesis
    unfolding get_annual_hours_float times_365_over_60_def 1 2 by (rule refl)
qed

lemma overflowing_int: "get_annual_hours (PyInt (10 ^ 400)) = Inl OverflowError"
proof -
  have "(2::rat) ^ 1024 \<le> of_int (10 ^ 400) * 365 / 60" by simp
  then have "round64 (of_int (10 ^ 400) * 365 / 60) = PosInf" by (rule round64_overflow)
  then show ?thesis by (simp only: get_annual_hours_int double.case)
qed

lemma annual_hours_441: "get_annual_hours (PyFloat (Finite 441)) = Inr (PyFloat (Finite (10731 / 4)))"
proof -
  have 1: "fmul (Finite 441) (Finite 365) = Finite 160965"
    using round64_eqI[of 17 "441 * 365" 5530715286405120] by simp
  have 2: "fquot (Finite 160965) (Finite 60) = Finite (10731 / 4)"
    using round64_eqI[of 11 "160965 / 60" 5899429638832128] by simp
  show ?thesis
    unfolding get_annual_hours_float times_365_over_60_def 1 2 by (rule refl)
qed

lemma annual_hours_94:
  "get_annual_hours (PyInt 94) = Inr (PyFloat (Finite (5029899193199275 / 8796093022208)))"
proof -
  have "round64 (of_int 94 * 365 / 60) = Finite (5029899193199275 / 8796093022208)"
    using round64_eqI[of 9 "of_int 94 * 365 / 60" 5029899193199275] by simp
  then show ?thesis by (simp only: get_annual_hours_int double.case)
qed

text \<open>
  C7, as the specification has it: for every input \<open>m >= 0\<close> the function returns
  \<open>m * 365 / 60\<close>, and \<open>m1 <= m2\<close> gives
  \<open>get_annual_hours(m1) <= get_annual_hours(m2)\<close>. Two inputs refute it. The int
  24677258232169 is not above the float of the same value, yet its result is the greater
  one: the float's product with 365 is rounded, the int's is not. And for the int
  \<open>10 ** 400\<close> the call raises \<open>OverflowError\<close>.
\<close>

theorem get_annual_hours_every_input_counterexample:
  "float_of_int 24677258232169 = Inr (Finite 24677258232169) \<and>
   num_le (PyInt 0) (PyInt 24677258232169) \<and>
   num_le (PyInt 24677258232169) (PyFloat (Finite 24677258232169)) \<and>
   get_annual_hours (PyInt 24677258232169) = Inr (PyFloat (Finite (4803839602528899 / 32))) \<and>
   get_annual_hours (PyFloat (Finite 24677258232169)) =
     Inr (PyFloat (Finite (4803839602528898 / 32))) \<and>
   \<not> num_le (PyFloat (Finite (4803839602528899 / 32)))
         (PyFloat (Finite (4803839602528898 / 32))) \<and>
   num_le (PyInt 0) (PyInt (10 ^ 400)) \<and>
   get_annual_hours (PyInt (10 ^ 400)) = Inl OverflowError"
proof -
  have "float_of_int 24677258232169 = Inr (Finite 24677258232169)"
    using float_of_int_exact[of 24677258232169] by (simp add: exact_def)
  moreover have "num_le (PyInt 0) (PyInt 24677258232169)"
    "num_le (PyInt 24677258232169) (PyFloat (Finite 24677258232169))"
    "\<not> num_le (PyFloat (Finite (4803839602528899 / 32)))
         (PyFloat (Finite (4803839602528898 / 32)))"
    "num_le (PyInt 0) (PyInt (10 ^ 400))"
    by (simp_all add: num_le_def)
  ultimately show ?thesis using crossing_int crossing_float overflowing_int by blast
qed

text \<open>
  C7, amended. For every float \<open>m\<close>, \<open>get_annual_hours(m)\<close> returns
  \<open>m * 365 / 60\<close> as binary64 arithmetic evaluates it. For every int \<open>m\<close> it
  returns the exact quotient \<open>m * 365 / 60\<close> rounded once to the nearest float, and
  raises \<open>OverflowError\<close> exactly when that is no finite float; for \<open>m >= 0\<close> with a
  quotient below \<open>2 ^ 1023\<close> it returns, off from the quotient by at most its
  \<open>2 ^ 53\<close>th part, and where it returns for an int it returns for every smaller
  non-negative int. The function is monotonically increasing: for \<open>0 <= m1 <= m2\<close>
  with both calls returning, \<open>get_annual_hours(m1) <= get_annual_hours(m2)\<close> whenever the
  products \<open>m1 * 365\<close> and \<open>m2 * 365\<close> that it computes first are in that order. They
  are for any two floats, for any two ints, and for an int with a float when 365 times
  the int is below \<open>2 ^ 53\<close>.
\<close>

theorem get_annual_hours_value_and_order:
  "get_annual_hours (PyFloat x) = Inr (PyFloat (times_365_over_60 x)) \<and>
   get_annual_hours (PyInt i) =
     (case round64 (of_int i * 365 / 60) of
        Finite r \<Rightarrow> Inr (PyFloat (Finite r))
      | PosInf \<Rightarrow> Inl OverflowError
      | NegInf \<Rightarrow> Inl OverflowError
      | NaN \<Rightarrow> Inl OverflowError) \<and>
   (0 \<le> i \<and> of_int i * 365 / 60 < (2::rat) ^ 1023 \<longrightarrow>
      (\<exists>r. get_annual_hours (PyInt i) = Inr (PyFloat (Finite r)) \<and>
           r = round_nearest (of_int i * 365 / 60) \<and>
           \<bar>r - of_int i * 365 / 60\<bar> \<le> (of_int i * 365 / 60) / 2 ^ 53)) \<and>
   (0 \<le> i \<and> i \<le> j \<and> get_annual_hours (PyInt j) = Inr h \<longrightarrow>
      (\<exists>h'. get_annual_hours (PyInt i) = Inr h')) \<and>
   (num_le (PyInt 0) m1 \<and> num_le m1 m2 \<and> products_in_order m1 m2 \<and>
    get_annual_hours m1 = Inr h1 \<and> get_annual_hours m2 = Inr h2 \<longrightarrow> num_le h1 h2) \<and>
   (num_le (PyInt 0) m1 \<and> num_le m1 m2 \<and> same_kind m1 m2 \<longrightarrow> products_in_order m1 m2) \<and>
   (0 \<le> i \<and> i * 365 < 2 ^ 53 \<and> num_le (PyInt i) (PyFloat y) \<longrightarrow>
      products_in_order (PyInt i) (PyFloat y)) \<and>
   (0 \<le> i \<and> i * 365 < 2 ^ 53 \<and> num_le (PyInt 0) (PyFloat y) \<and> num_le (PyFloat y) (PyInt i) \<longrightarrow>
      products_in_order (PyFloat y) (PyInt i))"
  using get_annual_hours_float get_annual_hours_int get_annual_hours_int_finite
    get_annual_hours_int_below get_annual_hours_order same_kind_in_order exact_int_in_order
  by (intro conjI impI; (elim conjE)?; blast)

theorem get_annual_hours_value_and_order_witness:
  "num_le (PyInt 0) (PyInt 94) \<and> num_le (PyInt 94) (PyFloat (Finite 441)) \<and>
   (0::int) \<le> 94 \<and> (94::int) * 365 < 2 ^ 53 \<and>
   products_in_order (PyInt 94) (PyFloat (Finite 441)) \<and>
   get_annual_hours (PyInt 94) = Inr (PyFloat (Finite (5029899193199275 / 8796093022208))) \<and>
   get_annual_hours (PyFloat (Finite 441)) = Inr (PyFloat (Finite (10731 / 4))) \<and>
   num_le (PyFloat (Finite (5029899193199275 / 8796093022208))) (PyFloat (Finite (10731 / 4)))"
proof -
  have a: "num_le (PyInt 0) (PyInt 94)" "num_le (PyInt 94) (PyFloat (Finite 441))"
    by (simp_all add: num_le_def)
  have b: "(0::int) \<le> 94" "(94::int) * 365 < 2 ^ 53" by simp_all
  note t = get_annual_hours_value_and_order[of _ 94 _ _ "PyInt 94" "PyFloat (Finite 441)"
      "PyFloat (Finite (5029899193199275 / 8796093022208))" "PyFloat (Finite (10731 / 4))"
      "Finite 441"]
  from t a b have p: "products_in_order (PyInt 94) (PyFloat (Finite 441))" by blast
  from t a p annual_hours_94 annual_hours_441
  have "num_le (PyFloat (Finite (5029899193199275 / 8796093022208))) (PyFloat (Finite (10731 / 4)))"
    by blast
  with a b p annual_hours_94 annual_hours_441 show ?thesis by blast
qed

section \<open>Formatting amounts and rates\<close>



section \<open>Time-use tables\<close>

lemma itemized_female: "itemized_minutes ''female'' TIME_ALLOCATION = Some 441"
  by (simp add: TIME_ALLOCATION_def)

lemma itemized_male: "itemized_minutes ''male'' TIME_ALLOCATION = Some 94"
  by (simp add: TIME_ALLOCATION_def)

text \<open>
  C1, as the specification has it: for neither gender does the entry of
  \<open>TOTAL_UNPAID_MINUTES\<close> equal the sum of the eleven \<open>TIME_ALLOCATION\<close> entries.
  The tables refute it: the sums are 441 and 94, the very totals.
\<close>

theorem totals_differ_counterexample:
  "\<not> (itemized_minutes ''female'' TIME_ALLOCATION \<noteq> map_of TOTAL_UNPAID_MINUTES ''female'' \<and>
      itemized_minutes ''male'' TIME_ALLOCATION \<noteq> map_of TOTAL_UNPAID_MINUTES ''male'')"
  by (simp add: itemized_female itemized_male TOTAL_UNPAID_MINUTES_def)

text \<open>
  C1, amended: for both genders the entry of \<open>TOTAL_UNPAID_MINUTES\<close> equals the sum over
  the eleven activities of the \<open>TIME_ALLOCATION\<close> entries: 441 minutes for
  \<open>female\<close>, 94 for \<open>male\<close>.
\<close>

theorem totals_equal_itemized:
  "length TIME_ALLOCATION = 11 \<and>
   itemized_minutes ''female'' TIME_ALLOCATION = Some 441 \<and>
   map_of TOTAL_UNPAID_MINUTES ''female'' = Some 441 \<and>
   itemized_minutes ''male'' TIME_ALLOCATION = Some 94 \<and>
   map_of TOTAL_UNPAID_MINUTES ''male'' = Some 94"
  by (simp add: itemized_female itemized_male TOTAL_UNPAID_MINUTES_def)
    (simp add: TIME_ALLOCATION_def)

section \<open>Provisioning the output directories\<close>

lemma os_mkdir_Inr:
  "os_mkdir p fs = Inr fs' \<Longrightarrow> fs p = None \<and> fs (butlast p) = Some Dir \<and> fs' = fs(p \<mapsto> Dir)"
  by (auto simp: os_mkdir_def split: if_splits option.splits node.splits)

lemma os_mkdir_exists: "fs p \<noteq> None \<Longrightarrow> os_mkdir p fs = Inl (FileExistsError p)"
  by (simp add: os_mkdir_def)

lemma mkdir_existing: "is_dir fs p \<Longrightarrow> mkdir p fs = Inr fs"
  by (subst mkdir.simps) (simp add: is_dir_def os_mkdir_exists)

lemma mkdir_post_refl: "mkdir_post p fs fs"
  by (simp add: mkdir_post_def)

lemma mkdir_post_upd: "fs p = None \<Longrightarrow> mkdir_post p fs (fs(p \<mapsto> Dir))"
  by (simp add: mkdir_post_def)

lemma mkdir_post_trans:
  "mkdir_post p fs fs1 \<Longrightarrow> mkdir_post p' fs1 fs2 \<Longrightarrow> prefix p p' \<Longrightarrow> mkdir_post p' fs fs2"
  unfolding mkdir_post_def by (metis prefix_order.trans)

lemma prefix_butlast: "prefix (butlast p) p"
  by (simp add: prefixeq_butlast)

lemma mkdir_Inr:
  "mkdir p fs = Inr fs' \<Longrightarrow> is_dir fs' p \<and> mkdir_post p fs fs'"
proof (induction p fs arbitrary: fs' rule: mkdir.induct)
  case (1 p fs)
  note unf = mkdir.simps[of p fs]
  show ?case
  proof (cases "os_mkdir p fs")
    case (Inr g)
    with "1.prems" have "fs' = g" by (simp add: unf)
    moreover from os_mkdir_Inr[OF Inr] have "fs p = None" "g = fs(p \<mapsto> Dir)" by simp_all
    ultimately have f: "fs p = None" "fs' = fs(p \<mapsto> Dir)" by simp_all
    from f have "is_dir fs' p" by (simp add: is_dir_def)
    moreover from f mkdir_post_upd[of fs p] have "mkdir_post p fs fs'" by blast
    ultimately show ?thesis by blast
  next
    case (Inl e)
    show ?thesis
    proof (cases "\<exists>q. e = FileNotFoundError q")
      case False
      with Inl "1.prems" have "is_dir fs p \<and> fs' = fs"
        by (cases e) (simp_all add: unf split: if_splits)
      then show ?thesis using mkdir_post_refl by blast
    next
      case True
      then obtain q where e: "e = FileNotFoundError q" by blast
      with Inl "1.prems" have ne: "p \<noteq> []"
        by (simp add: unf split: if_splits)
      from e Inl "1.prems" ne obtain fs1 where
        m1: "mkdir (butlast p) fs = Inr fs1"
        by (cases "mkdir (butlast p) fs") (simp_all add: unf)
      from "1.IH"[OF Inl e ne m1] have p1: "mkdir_post (butlast p) fs fs1" by simp
      have "(\<exists>fs2. os_mkdir p fs1 = Inr fs2 \<and> fs' = fs2) \<or> (is_dir fs1 p \<and> fs' = fs1)"
      proof (cases "os_mkdir p fs1")
        case (Inr fs2)
        with e Inl "1.prems" ne m1 show ?thesis by (simp add: unf)
      next
        case (Inl e2)
        with e \<open>os_mkdir p fs = Inl e\<close> "1.prems" ne m1 show ?thesis
          by (cases e2) (simp_all add: unf split: if_splits)
      qed
      then show ?thesis
      proof
        assume "\<exists>fs2. os_mkdir p fs1 = Inr fs2 \<and> fs' = fs2"
        then have o: "fs1 p = None" "fs' = fs1(p \<mapsto> Dir)"
          using os_mkdir_Inr by blast+
        from o have "is_dir fs' p" by (simp add: is_dir_def)
        moreover from o mkdir_post_upd[of fs1 p] have "mkdir_post p fs1 fs'" by blast
        from mkdir_post_trans[OF p1 this prefix_butlast]
        have "mkdir_post p fs fs'" .
        ultimately show ?thesis by blast
      next
        assume a: "is_dir fs1 p \<and> fs' = fs1"
        from mkdir_post_trans[OF p1 mkdir_post_refl prefix_butlast] a
        show ?thesis by blast
      qed
    qed
  qed
qed


lemma mkdir_each_existing: "list_all (is_dir fs) ds \<Longrightarrow> mkdir_each ds fs = Inr fs"
  by (induction ds) (simp_all add: mkdir_existing)

lemma changed_within_step:
  assumes "mkdir_post d fs fs1" "changed_within ds fs1 fs'"
  shows "changed_within (d # ds) fs fs'"
  unfolding changed_within_def
proof (intro conjI allI impI)
  fix q assume "fs q \<noteq> None"
  with assms show "fs' q = fs q"
    unfolding mkdir_post_def changed_within_def by metis
next
  fix q assume n: "fs' q \<noteq> fs q"
  show "fs' q = Some Dir" using assms n
    unfolding mkdir_post_def changed_within_def by metis
next
  fix q assume n: "fs' q \<noteq> fs q"
  show "\<exists>d' \<in> set (d # ds). prefix q d'"
  proof (cases "fs1 q = fs q")
    case True
    with n assms(2) show ?thesis unfolding changed_within_def by auto
  next
    case False
    with assms(1) have "prefix q d" unfolding mkdir_post_def by blast
    then show ?thesis by simp
  qed
qed

lemma mkdir_each_Inr:
  "mkdir_each ds fs = Inr fs' \<Longrightarrow> list_all (is_dir fs') ds \<and> changed_within ds fs fs'"
proof (induction ds arbitrary: fs)
  case Nil
  then show ?case by (simp add: changed_within_def)
next
  case (Cons d ds)
  then obtain fs1 where m: "mkdir d fs = Inr fs1" and r: "mkdir_each ds fs1 = Inr fs'"
    by (cases "mkdir d fs") simp_all
  from mkdir_Inr[OF m] have d1: "is_dir fs1 d" and p1: "mkdir_post d fs fs1" by simp_all
  from Cons.IH[OF r] have a: "list_all (is_dir fs') ds" and c: "changed_within ds fs1 fs'"
    by simp_all
  from d1 c have "is_dir fs' d" by (simp add: is_dir_def changed_within_def)
  moreover note changed_within_step[OF p1 c]
  ultimately show ?case using a by simp
qed


lemmas dir_defs = directories_def DATA_DIR_def OUTPUTS_DIR_def FIGURES_DIR_def
  TABLES_DIR_def LOGS_DIR_def

lemma first_call_fresh:
  "create_output_directories [''repo''] fresh_project = Inr provisioned_project"
  by (simp add: create_output_directories_def dir_defs mkdir.simps os_mkdir_def is_dir_def
      fresh_project_def provisioned_project_def)

lemma second_call_fresh:
  "create_output_directories [''repo''] provisioned_project = Inr provisioned_project"
  by (simp add: create_output_directories_def dir_defs mkdir.simps os_mkdir_def is_dir_def
      fresh_project_def provisioned_project_def)

lemma below_provisioned:
  "directories_below [''repo''] provisioned_project =
     insert [''repo'', ''src''] (insert [''repo'', ''data''] (set (directories [''repo''])))"
  by (auto simp: directories_below_def is_dir_def provisioned_project_def fresh_project_def
      dir_defs split: if_splits)

lemma created_provisioned:
  "created_directories fresh_project provisioned_project =
     insert [''repo'', ''data''] (set (directories [''repo'']))"
  by (auto simp: created_directories_def is_dir_def provisioned_project_def fresh_project_def
      dir_defs split: if_splits)

text \<open>
  C6, as the specification has it: after two calls exactly the five listed directories
  are present. On a checkout that holds nothing but the module both calls succeed, and
  they leave six new directories, not five: \<open>parents=True\<close> has created \<open>data\<close> as
  well; with the module's own directory, seven stand below the project root.
\<close>

theorem exactly_five_directories_counterexample:
  "create_output_directories [''repo''] fresh_project = Inr provisioned_project \<and>
   create_output_directories [''repo''] provisioned_project = Inr provisioned_project \<and>
   directories_below [''repo''] provisioned_project \<noteq> set (directories [''repo'']) \<and>
   created_directories fresh_project provisioned_project \<noteq> set (directories [''repo'']) \<and>
   card (created_directories fresh_project provisioned_project) = 6 \<and>
   card (directories_below [''repo''] provisioned_project) = 7"
proof -
  have n: "[''repo'', ''data''] \<notin> set (directories [''repo''])"
    by (simp add: dir_defs)
  then have "directories_below [''repo''] provisioned_project \<noteq> set (directories [''repo''])"
    unfolding below_provisioned by blast
  moreover from n
  have "created_directories fresh_project provisioned_project \<noteq> set (directories [''repo''])"
    unfolding created_provisioned by blast
  moreover have "card (created_directories fresh_project provisioned_project) = 6"
    unfolding created_provisioned by (simp add: dir_defs)
  moreover have "card (directories_below [''repo''] provisioned_project) = 7"
    unfolding below_provisioned by (simp add: dir_defs)
  ultimately show ?thesis
    using first_call_fresh second_call_fresh by blast
qed

text \<open>
  C6, amended: when a call of \<open>create_output_directories\<close> has succeeded, a second call
  succeeds too and changes nothing; the five directories \<open>data/processed\<close>,
  \<open>outputs\<close>, \<open>outputs/figures\<close>, \<open>outputs/tables\<close> and \<open>outputs/logs\<close> under
  the project root are then present, and whatever the call added is a directory on the
  path to one of them (such as their parent \<open>data\<close>), nodes that existed being left as
  they were.
\<close>

theorem create_output_directories_twice:
  assumes "create_output_directories PROJECT_ROOT fs = Inr fs1"
  shows "create_output_directories PROJECT_ROOT fs1 = Inr fs1 \<and>
         list_all (is_dir fs1) (directories PROJECT_ROOT) \<and>
         length (directories PROJECT_ROOT) = 5 \<and> distinct (directories PROJECT_ROOT) \<and>
         changed_within (directories PROJECT_ROOT) fs fs1"
proof -
  from assms have "mkdir_each (directories PROJECT_ROOT) fs = Inr fs1"
    by (simp add: create_output_directories_def)
  from mkdir_each_Inr[OF this]
  have a: "list_all (is_dir fs1) (directories PROJECT_ROOT)"
    and c: "changed_within (directories PROJECT_ROOT) fs fs1" by simp_all
  from mkdir_each_existing[OF a]
  have "create_output_directories PROJECT_ROOT fs1 = Inr fs1"
    by (simp add: create_output_directories_def)
  moreover have "length (directories PROJECT_ROOT) = 5 \<and> distinct (directories PROJECT_ROOT)"
    by (simp add: dir_defs)
  ultimately show ?thesis using a c by blast
qed

theorem create_output_directories_twice_witness:
  "create_output_directories [''repo''] fresh_project = Inr provisioned_project \<and>
   create_output_directories [''repo''] provisioned_project = Inr provisioned_project \<and>
   list_all (is_dir provisioned_project) (directories [''repo'']) \<and>
   length (directories [''repo'']) = 5 \<and> distinct (directories [''repo'']) \<and>
   changed_within (directories [''repo'']) fresh_project provisioned_project"
  using create_output_directories_twice [OF first_call_fresh] first_call_fresh by blast

end
